theory Spec2Isabelle
  imports Main "HOL-Library.Word"
begin

section \<open>The RAUC D-Bus client of rauc-hawkbit-updater (rauc-installer.c)\<close>

text \<open>
  The file \<^verbatim>\<open>src/rauc-installer.c\<close> starts a RAUC installation over D-Bus on a thread of
  its own and reports progress and completion through two callbacks. Its six functions are
  embedded below: \<^verbatim>\<open>on_installer_status\<close>, \<^verbatim>\<open>on_installer_completed\<close>,
  \<^verbatim>\<open>install_context_new\<close>, \<^verbatim>\<open>install_context_free\<close>, \<^verbatim>\<open>install_loop_thread\<close>
  and \<^verbatim>\<open>rauc_install\<close>. Every function returns the new \<^verbatim>\<open>install_context\<close> together
  with the list of the calls it made that are visible outside (the effects), in program
  order. Logging (\<^verbatim>\<open>g_debug\<close>, \<^verbatim>\<open>g_printerr\<close>) is left out.
\<close>

subsection \<open>Values\<close>

text \<open>\<^verbatim>\<open>gint\<close> and \<^verbatim>\<open>gint32\<close> are signed 32-bit integers: 32-bit words read with \<^term>\<open>sint\<close>.\<close>

type_synonym gint = "32 word"

text \<open>
  A handler id as \<^verbatim>\<open>g_signal_connect\<close> returns it (\<^verbatim>\<open>gulong\<close>, 0 when the connection
  failed), the identity of a \<^verbatim>\<open>GMainContext\<close>, and the address of a \<^verbatim>\<open>GSourceFunc\<close>.
\<close>

type_synonym gulong = nat
type_synonym gmain_context = nat
type_synonym gsource_func = nat

text \<open>A \<^verbatim>\<open>GMainLoop\<close> is created on one main context and runs that context.\<close>

datatype gmain_loop = GMainLoop (loop_on: gmain_context)

text \<open>
  The values of the \<^verbatim>\<open>a{sv}\<close> dictionary of changed properties: a string (\<^verbatim>\<open>"s"\<close>), a
  triple (\<^verbatim>\<open>"(isi)"\<close>), or a value of any other type. The dictionary is an array of entries;
  \<^verbatim>\<open>g_variant_lookup\<close> takes the first entry with the key and fails when its value has not the
  type asked for.
\<close>

datatype gvariant = GV_s string | GV_isi gint string gint | GV_other

type_synonym vardict = "(string \<times> gvariant) list"

definition g_variant_lookup_s :: "vardict \<Rightarrow> string \<Rightarrow> string option" where
  "g_variant_lookup_s dict key =
     (case map_of dict key of Some (GV_s s) \<Rightarrow> Some s | _ \<Rightarrow> None)"

definition g_variant_lookup_isi :: "vardict \<Rightarrow> string \<Rightarrow> (gint \<times> string \<times> gint) option" where
  "g_variant_lookup_isi dict key =
     (case map_of dict key of Some (GV_isi i s j) \<Rightarrow> Some (i, s, j) | _ \<Rightarrow> None)"

subsection \<open>Formatting\<close>

text \<open>
  \<^verbatim>\<open>g_strdup_printf("%3" G_GINT32_FORMAT "%% %s", percentage, message)\<close>: the number in
  decimal, padded with spaces on the left to three characters, a percent sign, a space and
  the message.
\<close>

definition digit_char :: "nat \<Rightarrow> char" where
  "digit_char d = ''0123456789'' ! d"

fun nat_digits :: "nat \<Rightarrow> string" where
  "nat_digits n =
     (if n < 10 then [digit_char n] else nat_digits (n div 10) @ [digit_char (n mod 10)])"

declare nat_digits.simps [simp del]

definition int_decimal :: "int \<Rightarrow> string" where
  "int_decimal i = (if i < 0 then CHR ''-'' # nat_digits (nat (- i)) else nat_digits (nat i))"

definition pad_left :: "nat \<Rightarrow> string \<Rightarrow> string" where
  "pad_left w s = replicate (w - length s) CHR '' '' @ s"

definition printf_progress :: "gint \<Rightarrow> string \<Rightarrow> string" where
  "printf_progress percentage message =
     pad_left 3 (int_decimal (sint percentage)) @ ''% '' @ message"

definition printf_last_error :: "string \<Rightarrow> string" where
  "printf_last_error message = ''LastError: '' @ message"

subsection \<open>The install context and the effects\<close>

text \<open>
  Modelled from the spec: the declaration of \<^verbatim>\<open>struct install_context\<close> is in the header
  \<^verbatim>\<open>rauc-installer.h\<close>, which is not among the sources. The fields are the ones the
  functions of \<^verbatim>\<open>rauc-installer.c\<close> use and the spec lists for the Install Session: the
  bundle path, the two callbacks, the queue of status messages (head first), the result,
  the main loop and its main context. A pointer that may be \<^verbatim>\<open>NULL\<close> is an option. The
  mutex \<^verbatim>\<open>status_mutex\<close> holds no data; locking and unlocking it are effects. The
  field \<^verbatim>\<open>bundle\<close> is called \<open>bundle_path\<close> here, its name being a keyword of Isabelle.
\<close>

record install_context =
  bundle_path :: "string option"
  notify_event :: "gsource_func option"
  notify_complete :: "gsource_func option"
  status_messages :: "string list"
  status_result :: gint
  mainloop :: "gmain_loop option"
  loop_context :: "gmain_context option"

datatype bus_type = G_BUS_TYPE_SESSION | G_BUS_TYPE_SYSTEM

datatype effect =
    Mutex_lock
  | Mutex_unlock
  | Store_result gint
  | Queue_push_tail string
  | Main_loop_quit "gmain_loop option"
  | Context_invoke "gmain_context option" gsource_func
  | Call_direct gsource_func
  | Idle_attach gmain_context gsource_func
  | Thread_new
  | Push_thread_default "gmain_context option"
  | Pop_thread_default "gmain_context option"
  | Proxy_new_for_bus_sync bus_type
  | Signal_connect string
  | Call_install_sync "string option"
  | Main_loop_run "gmain_loop option"
  | Handlers_disconnect
  | Call_notify_complete gsource_func
  | Free_bundle
  | Mutex_clear
  | Context_unref "gmain_context option"
  | Main_loop_unref "gmain_loop option"
  | Free_context

subsection \<open>The GLib thread a handler runs on\<close>

text \<open>
  \<^verbatim>\<open>g_main_context_invoke (context, function, data)\<close> calls the function at once when the
  calling thread owns the context, and otherwise attaches an idle source to the context, for
  the thread that iterates that context to dispatch. A \<^verbatim>\<open>NULL\<close> context stands for the
  global default context. What a callback does is not part of \<^verbatim>\<open>rauc-installer.c\<close>: the
  table \<open>on_event\<close> gives, for each function address, what one delivery does to the queue
  of status messages (the callback is handed the context and is expected to take the queued
  messages out; it returns \<^verbatim>\<open>G_SOURCE_REMOVE\<close>).
\<close>

record glib_thread =
  owned :: "gmain_context option"
  on_event :: "gsource_func \<Rightarrow> string list \<Rightarrow> string list"

definition g_main_context_default :: gmain_context where
  "g_main_context_default = 0"

definition context_or_default :: "gmain_context option \<Rightarrow> gmain_context" where
  "context_or_default p = (case p of None \<Rightarrow> g_main_context_default | Some c \<Rightarrow> c)"

definition g_main_context_invoke ::
  "glib_thread \<Rightarrow> gmain_context option \<Rightarrow> gsource_func \<Rightarrow> install_context
     \<Rightarrow> install_context \<times> effect list" where
  "g_main_context_invoke th target function context =
     (if owned th = Some (context_or_default target)
      then (context\<lparr>status_messages := on_event th function (status_messages context)\<rparr>,
            [Context_invoke target function, Call_direct function])
      else (context,
            [Context_invoke target function,
             Idle_attach (context_or_default target) function]))"

subsection \<open>The two signal handlers\<close>

text \<open>
  Lines 53 to 59 of \<^verbatim>\<open>on_installer_status\<close>: the message that the chain of lookups pushes
  to the queue, if any.
\<close>

definition status_message :: "vardict \<Rightarrow> string option" where
  "status_message changed =
     (case g_variant_lookup_s changed ''Operation'' of
        Some message \<Rightarrow> Some message
      | None \<Rightarrow>
         (case g_variant_lookup_isi changed ''Progress'' of
            Some (percentage, message, depth) \<Rightarrow> Some (printf_progress percentage message)
          | None \<Rightarrow>
             (case g_variant_lookup_s changed ''LastError'' of
                Some message \<Rightarrow>
                  if message \<noteq> [] then Some (printf_last_error message) else None
              | None \<Rightarrow> None)))"

text \<open>\<^verbatim>\<open>invalidated && invalidated[0]\<close>, for a \<^verbatim>\<open>NULL\<close>-terminated array of strings.\<close>

definition has_invalidated :: "string list option \<Rightarrow> bool" where
  "has_invalidated invalidated =
     (case invalidated of None \<Rightarrow> False | Some [] \<Rightarrow> False | Some (p # ps) \<Rightarrow> True)"

definition on_installer_status ::
  "glib_thread \<Rightarrow> vardict \<Rightarrow> string list option \<Rightarrow> install_context
     \<Rightarrow> install_context \<times> effect list" where
  "on_installer_status th changed invalidated context =
     (if has_invalidated invalidated then
        (context\<lparr>status_result := 2\<rparr>,
         [Mutex_lock, Store_result 2, Mutex_unlock, Main_loop_quit (mainloop context)])
      else
        (case notify_event context of
           None \<Rightarrow> (context, [])
         | Some function \<Rightarrow>
            (let msgs = (case status_message changed of None \<Rightarrow> [] | Some m \<Rightarrow> [m]);
                 context1 = context\<lparr>status_messages := status_messages context @ msgs\<rparr>;
                 locked = [Mutex_lock] @ map Queue_push_tail msgs @ [Mutex_unlock]
             in if status_messages context1 \<noteq> [] then
                  (let (context2, es) =
                         g_main_context_invoke th (loop_context context1) function context1
                   in (context2, locked @ es))
                else (context1, locked))))"

definition on_installer_completed :: "gint \<Rightarrow> install_context \<Rightarrow> install_context \<times> effect list" where
  "on_installer_completed result context =
     (context\<lparr>status_result := result\<rparr>,
      [Mutex_lock, Store_result result, Mutex_unlock] @
      (if 0 \<le> sint result then [Main_loop_quit (mainloop context)] else []))"

subsection \<open>Creating and freeing the context\<close>

text \<open>\<^verbatim>\<open>g_new0\<close> clears every field; the queue starts empty and the result is -2.\<close>

definition install_context_new :: "install_context \<times> effect list" where
  "install_context_new =
     (\<lparr>bundle_path = None, notify_event = None, notify_complete = None, status_messages = [],
       status_result = - 2, mainloop = None, loop_context = None\<rparr>,
      [Store_result (- 2)])"

text \<open>
  The two assertions of \<^verbatim>\<open>install_context_free\<close> abort the process when they fail; what was
  released before them has happened by then.
\<close>

datatype abort = Assert_status_result | Assert_queue_empty

definition install_context_free :: "install_context option \<Rightarrow> effect list \<times> abort option" where
  "install_context_free p =
     (case p of
        None \<Rightarrow> ([], None)
      | Some context \<Rightarrow>
         (let released = [Free_bundle, Mutex_clear, Context_unref (loop_context context)]
          in if \<not> 0 \<le> sint (status_result context) then (released, Some Assert_status_result)
             else if status_messages context \<noteq> [] then (released, Some Assert_queue_empty)
             else (released @ [Main_loop_unref (mainloop context), Free_context], None)))"

subsection \<open>The main loop and the thread\<close>

text \<open>
  What the world outside does in one run: the value of the environment variable
  \<^verbatim>\<open>DBUS_STARTER_BUS_TYPE\<close>, whether the proxy was created, the handler ids that the two
  \<^verbatim>\<open>g_signal_connect\<close> calls return, whether \<^verbatim>\<open>r_installer_call_install_sync\<close> succeeded,
  the signals of the proxy that the main loop dispatches (one list for every iteration of
  the loop: the signals that are ready when the iteration starts, in order), and what the
  registered callbacks do to the queue.
\<close>

datatype notification = Properties_changed vardict "string list option" | Completed gint

record dbus_env =
  starter_bus_type :: "string option"
  proxy_created :: bool
  properties_changed_id :: gulong
  completed_id :: gulong
  install_called :: bool
  signals :: "notification list list"
  callbacks :: "gsource_func \<Rightarrow> string list \<Rightarrow> string list"

definition dispatch ::
  "glib_thread \<Rightarrow> notification \<Rightarrow> install_context \<Rightarrow> install_context \<times> effect list" where
  "dispatch th n context =
     (case n of
        Properties_changed changed invalidated \<Rightarrow>
          on_installer_status th changed invalidated context
      | Completed result \<Rightarrow> on_installer_completed result context)"

text \<open>
  One iteration of the main context dispatches every source that is ready, one after the
  other, whatever the handlers do: GDBus attaches a source of its own for every signal, and
  \<^verbatim>\<open>g_main_loop_quit\<close> only clears the flag that the loop tests between iterations.
\<close>

fun g_main_dispatch ::
  "glib_thread \<Rightarrow> notification list \<Rightarrow> install_context \<Rightarrow> install_context \<times> effect list" where
  "g_main_dispatch th [] context = (context, [])"
| "g_main_dispatch th (n # ns) context =
     (let (context1, es) = dispatch th n context;
          (context2, es2) = g_main_dispatch th ns context1
      in (context2, es @ es2))"

text \<open>
  \<^verbatim>\<open>g_main_loop_run (loop)\<close> acquires the context of the loop for the calling thread and
  iterates it while the loop is running: it returns after the first iteration in which a
  handler has called \<^verbatim>\<open>g_main_loop_quit\<close> on this loop, once every signal of that
  iteration has been dispatched. The signals of later iterations are never dispatched.
  When the iterations end and no handler has quit the loop, the thread waits for ever: the
  third component of the result tells whether the call returned.
\<close>

fun g_main_loop_run ::
  "(gsource_func \<Rightarrow> string list \<Rightarrow> string list) \<Rightarrow> gmain_loop \<Rightarrow> notification list list
     \<Rightarrow> install_context \<Rightarrow> install_context \<times> effect list \<times> bool" where
  "g_main_loop_run cbs l [] context = (context, [], False)"
| "g_main_loop_run cbs l (ready # later) context =
     (let (context1, es) =
            g_main_dispatch \<lparr>owned = Some (loop_on l), on_event = cbs\<rparr> ready context
      in if Main_loop_quit (Some l) \<in> set es then (context1, es, True)
         else (let (context2, es2, returned) = g_main_loop_run cbs l later context1
               in (context2, es @ es2, returned)))"

datatype outcome = Returned | Aborted abort | Blocked

text \<open>The part of \<^verbatim>\<open>install_loop_thread\<close> from the label \<^verbatim>\<open>out_loop\<close> on.\<close>

definition out_loop :: "install_context \<Rightarrow> effect list \<Rightarrow> install_context \<times> effect list \<times> outcome" where
  "out_loop context es0 =
     (let (freed, aborted) = install_context_free (Some context)
      in (context,
          es0 @ [Handlers_disconnect] @
          (case notify_complete context of
             None \<Rightarrow> []
           | Some function \<Rightarrow> [Call_notify_complete function]) @
          [Pop_thread_default (loop_context context)] @ freed,
          case aborted of None \<Rightarrow> Returned | Some a \<Rightarrow> Aborted a))"

definition install_loop_thread ::
  "dbus_env \<Rightarrow> install_context \<Rightarrow> install_context \<times> effect list \<times> outcome" where
  "install_loop_thread env context =
     (let bus = (if starter_bus_type env = Some ''session''
                 then G_BUS_TYPE_SESSION else G_BUS_TYPE_SYSTEM);
          e1 = [Push_thread_default (loop_context context), Proxy_new_for_bus_sync bus];
          e2 = e1 @ [Signal_connect ''g-properties-changed''];
          e3 = e2 @ [Signal_connect ''completed''];
          e4 = e3 @ [Call_install_sync (bundle_path context)];
          e5 = e4 @ [Main_loop_run (mainloop context)]
      in if \<not> proxy_created env then out_loop context e1
         else if properties_changed_id env \<le> 0 then out_loop context e2
         else if completed_id env \<le> 0 then out_loop context e3
         else if \<not> install_called env then out_loop context e4
         else
           (case mainloop context of
              None \<Rightarrow> out_loop context e5
            | Some l \<Rightarrow>
               (let (context1, es, returned) =
                      g_main_loop_run (callbacks env) l (signals env) context
                in if returned then out_loop context1 (e5 @ es)
                   else (context1, e5 @ es, Blocked))))"

subsection \<open>Starting an installation\<close>

text \<open>
  \<^verbatim>\<open>g_main_context_new ()\<close> returns a context that is none of the contexts that exist
  already (\<open>live\<close>, the caller's among them) and not the global default context.
\<close>

definition g_main_context_new :: "gmain_context list \<Rightarrow> gmain_context" where
  "g_main_context_new live = Suc (fold max live g_main_context_default)"

text \<open>
  \<^verbatim>\<open>rauc_install\<close> fills the context in and starts the thread; it returns the context that
  the thread is given.
\<close>

definition rauc_install ::
  "gmain_context list \<Rightarrow> string option \<Rightarrow> gsource_func option \<Rightarrow> gsource_func option
     \<Rightarrow> install_context \<times> effect list" where
  "rauc_install live bundle_file on_install_notify on_install_complete =
     (let new_context = g_main_context_new live;
          (context, es) = install_context_new
      in (context\<lparr>bundle_path := bundle_file,
                  notify_event := on_install_notify,
                  notify_complete := on_install_complete,
                  mainloop := Some (GMainLoop new_context),
                  loop_context := Some new_context,
                  status_result := 2\<rparr>,
          es @ [Store_result 2, Thread_new]))"

text \<open>One whole run: \<^verbatim>\<open>rauc_install\<close>, then the thread it has started.\<close>

definition rauc_install_run ::
  "dbus_env \<Rightarrow> gmain_context list \<Rightarrow> string option \<Rightarrow> gsource_func option
     \<Rightarrow> gsource_func option \<Rightarrow> install_context \<times> effect list \<times> outcome" where
  "rauc_install_run env live bundle_file on_install_notify on_install_complete =
     (let (context, es) = rauc_install live bundle_file on_install_notify on_install_complete;
          (context1, es1, result) = install_loop_thread env context
      in (context1, es @ es1, result))"

subsection \<open>Reading a list of effects\<close>

text \<open>
  The messages pushed to the queue, the values stored into \<^verbatim>\<open>status_result\<close>, the
  deliveries requested with \<^verbatim>\<open>g_main_context_invoke\<close> and the calls of the completion
  callback, each in the order of the effects.
\<close>

definition pushed :: "effect list \<Rightarrow> string list" where
  "pushed es = concat (map (\<lambda>e. case e of Queue_push_tail m \<Rightarrow> [m] | _ \<Rightarrow> []) es)"

definition stored :: "effect list \<Rightarrow> gint list" where
  "stored es = concat (map (\<lambda>e. case e of Store_result v \<Rightarrow> [v] | _ \<Rightarrow> []) es)"

definition invoked :: "effect list \<Rightarrow> (gmain_context option \<times> gsource_func) list" where
  "invoked es = concat (map (\<lambda>e. case e of Context_invoke t f \<Rightarrow> [(t, f)] | _ \<Rightarrow> []) es)"

definition completions :: "effect list \<Rightarrow> gsource_func list" where
  "completions es = concat (map (\<lambda>e. case e of Call_notify_complete f \<Rightarrow> [f] | _ \<Rightarrow> []) es)"

text \<open>
  The main loops entered with \<^verbatim>\<open>g_main_loop_run\<close>, the callbacks that
  \<^verbatim>\<open>g_main_context_invoke\<close> called at once, and the idle sources it attached instead.
\<close>

definition entered :: "effect list \<Rightarrow> gmain_loop option list" where
  "entered es = concat (map (\<lambda>e. case e of Main_loop_run l \<Rightarrow> [l] | _ \<Rightarrow> []) es)"

definition called :: "effect list \<Rightarrow> gsource_func list" where
  "called es = concat (map (\<lambda>e. case e of Call_direct f \<Rightarrow> [f] | _ \<Rightarrow> []) es)"

definition attached :: "effect list \<Rightarrow> (gmain_context \<times> gsource_func) list" where
  "attached es = concat (map (\<lambda>e. case e of Idle_attach t f \<Rightarrow> [(t, f)] | _ \<Rightarrow> []) es)"

text \<open>The effects that give up a resource of the session.\<close>

definition is_release :: "effect \<Rightarrow> bool" where
  "is_release e =
     (case e of
        Pop_thread_default c \<Rightarrow> True
      | Free_bundle \<Rightarrow> True
      | Mutex_clear \<Rightarrow> True
      | Context_unref c \<Rightarrow> True
      | Main_loop_unref l \<Rightarrow> True
      | Free_context \<Rightarrow> True
      | _ \<Rightarrow> False)"

text \<open>
  A list of effects with none of the above in it: no completion callback, no main loop, no
  push, no delivery, no store of a result, and nothing released.
\<close>

definition silent :: "effect list \<Rightarrow> bool" where
  "silent es =
     (completions es = [] \<and> entered es = [] \<and> pushed es = [] \<and> invoked es = []
      \<and> stored es = [] \<and> called es = [] \<and> attached es = []
      \<and> list_all (\<lambda>e. \<not> is_release e) es)"

text \<open>The three components of the result of a run.\<close>

definition run_context :: "install_context \<times> effect list \<times> outcome \<Rightarrow> install_context" where
  "run_context r = fst r"

definition run_effects :: "install_context \<times> effect list \<times> outcome \<Rightarrow> effect list" where
  "run_effects r = fst (snd r)"

definition run_outcome :: "install_context \<times> effect list \<times> outcome \<Rightarrow> outcome" where
  "run_outcome r = snd (snd r)"

text \<open>
  Every store into \<^verbatim>\<open>status_result\<close> and every push to the queue in the list happens while
  \<^verbatim>\<open>status_mutex\<close> is held (\<open>held\<close> says whether it is held at the start).
\<close>

fun under_mutex :: "bool \<Rightarrow> effect list \<Rightarrow> bool" where
  "under_mutex held [] = True"
| "under_mutex held (e # es) =
     (case e of
        Mutex_lock \<Rightarrow> under_mutex True es
      | Mutex_unlock \<Rightarrow> under_mutex False es
      | Store_result v \<Rightarrow> held \<and> under_mutex held es
      | Queue_push_tail m \<Rightarrow> held \<and> under_mutex held es
      | _ \<Rightarrow> under_mutex held es)"

text \<open>
  A signal that ends the wait of the main loop: \<^verbatim>\<open>completed\<close> with a result that is not
  negative, or a notification with an invalidated property.
\<close>

definition ends_wait :: "notification \<Rightarrow> bool" where
  "ends_wait n =
     (case n of
        Completed result \<Rightarrow> 0 \<le> sint result
      | Properties_changed changed invalidated \<Rightarrow> has_invalidated invalidated)"

text \<open>
  The thread leaves before the main loop: no proxy, one of the two signals not connected,
  or the call of \<^verbatim>\<open>Install\<close> refused.
\<close>

definition early_exit :: "dbus_env \<Rightarrow> bool" where
  "early_exit env =
     (\<not> proxy_created env \<or> properties_changed_id env = 0 \<or> completed_id env = 0
      \<or> \<not> install_called env)"

subsection \<open>The event records of the specification\<close>

text \<open>
  The specification describes the queue as holding Event Records, and the handler of
  property changes as classifying a notification, in this order of priority: an operation
  name gives \<open>OperationChanged\<close>; else a triple of percent, message and depth gives
  \<open>ProgressChanged\<close>; else an error message that is not empty gives \<open>LastError\<close>; else
  there is no record. \<open>spec_classify\<close> follows these words.
\<close>

datatype spec_event_record =
    OperationChanged string
  | ProgressChanged gint string gint
  | LastError string

definition spec_classify :: "vardict \<Rightarrow> spec_event_record option" where
  "spec_classify changed =
     (case g_variant_lookup_s changed ''Operation'' of
        Some name \<Rightarrow> Some (OperationChanged name)
      | None \<Rightarrow>
         (case g_variant_lookup_isi changed ''Progress'' of
            Some (percent, message, depth) \<Rightarrow> Some (ProgressChanged percent message depth)
          | None \<Rightarrow>
             (case g_variant_lookup_s changed ''LastError'' of
                Some message \<Rightarrow> if message = [] then None else Some (LastError message)
              | None \<Rightarrow> None)))"

text \<open>
  The queue of the code holds strings. The string queued for each kind of record, from
  lines 54, 56 and 58 of the source.
\<close>

definition record_text :: "spec_event_record \<Rightarrow> string" where
  "record_text r =
     (case r of
        OperationChanged name \<Rightarrow> name
      | ProgressChanged percent message depth \<Rightarrow> printf_progress percent message
      | LastError message \<Rightarrow> printf_last_error message)"

subsection \<open>Four runs\<close>

text \<open>
  The scenarios that the specification lists as testable: the remote side answers every
  call, emits the given signals, each in an iteration of its own, and the registered
  callback takes every queued message out (A: \<open>completed\<close> with 0 at once; B: three
  progress notifications, then \<open>completed\<close> with 0; C: one progress notification, then
  the service vanishes); in D the call of \<^verbatim>\<open>Install\<close> is refused.
\<close>

definition drain :: "gsource_func \<Rightarrow> string list \<Rightarrow> string list" where
  "drain f q = []"

text \<open>A callback that leaves the queue as it is.\<close>

definition keep :: "gsource_func \<Rightarrow> string list \<Rightarrow> string list" where
  "keep f q = q"


definition remote :: "notification list list \<Rightarrow> dbus_env" where
  "remote ns =
     \<lparr>starter_bus_type = None, proxy_created = True, properties_changed_id = 1,
      completed_id = 2, install_called = True, signals = ns, callbacks = drain\<rparr>"

definition progress :: "gint \<Rightarrow> string \<Rightarrow> notification" where
  "progress percentage message =
     Properties_changed [(''Progress'', GV_isi percentage message 1)] (Some [])"



definition scenario_C :: dbus_env where
  "scenario_C =
     remote [[progress 10 ''checking''], [Properties_changed [] (Some [''Operation''])]]"

definition scenario_D :: dbus_env where
  "scenario_D = (remote [])\<lparr>install_called := False\<rparr>"

section \<open>Properties\<close>

subsection \<open>The handlers, case by case\<close>

lemma status_message_classify:
  "status_message changed = map_option record_text (spec_classify changed)"
  by (simp add: status_message_def spec_classify_def record_text_def split: option.splits prod.splits)

lemma status_invalidated:
  "has_invalidated invalidated \<Longrightarrow>
   on_installer_status th changed invalidated c =
     (c\<lparr>status_result := 2\<rparr>,
      [Mutex_lock, Store_result 2, Mutex_unlock, Main_loop_quit (mainloop c)])"
  by (simp add: on_installer_status_def)

lemma status_no_callback:
  "\<not> has_invalidated invalidated \<Longrightarrow> notify_event c = None \<Longrightarrow>
   on_installer_status th changed invalidated c = (c, [])"
  by (simp add: on_installer_status_def)

lemma status_push:
  "\<not> has_invalidated invalidated \<Longrightarrow> notify_event c = Some f \<Longrightarrow>
   status_message changed = Some m \<Longrightarrow>
   on_installer_status th changed invalidated c =
     (fst (g_main_context_invoke th (loop_context c) f
             (c\<lparr>status_messages := status_messages c @ [m]\<rparr>)),
      [Mutex_lock, Queue_push_tail m, Mutex_unlock] @
      snd (g_main_context_invoke th (loop_context c) f
             (c\<lparr>status_messages := status_messages c @ [m]\<rparr>)))"
  by (simp add: on_installer_status_def Let_def split: prod.splits)

lemma status_no_push:
  "\<not> has_invalidated invalidated \<Longrightarrow> notify_event c = Some f \<Longrightarrow>
   status_message changed = None \<Longrightarrow>
   on_installer_status th changed invalidated c =
     (if status_messages c \<noteq> [] then
        (fst (g_main_context_invoke th (loop_context c) f c),
         [Mutex_lock, Mutex_unlock] @ snd (g_main_context_invoke th (loop_context c) f c))
      else (c, [Mutex_lock, Mutex_unlock]))"
  by (simp add: on_installer_status_def Let_def split: prod.splits)

lemma invoke_effects:
  "snd (g_main_context_invoke th t f c) =
     [Context_invoke t f,
      if owned th = Some (context_or_default t) then Call_direct f
      else Idle_attach (context_or_default t) f]"
  by (simp add: g_main_context_invoke_def)

lemma invoke_context:
  "fst (g_main_context_invoke th t f c) =
     (if owned th = Some (context_or_default t)
      then c\<lparr>status_messages := on_event th f (status_messages c)\<rparr> else c)"
  by (simp add: g_main_context_invoke_def)

lemma has_invalidated_Some_Cons [simp]: "has_invalidated (Some (p # ps))"
  by (simp add: has_invalidated_def)

lemma has_invalidated_None [simp]: "\<not> has_invalidated None"
  by (simp add: has_invalidated_def)

lemma has_invalidated_Some_Nil [simp]: "\<not> has_invalidated (Some [])"
  by (simp add: has_invalidated_def)

lemma pushed_simps [simp]:
  "pushed [] = []"
  "pushed (es @ es') = pushed es @ pushed es'"
  "pushed (e # es) = (case e of Queue_push_tail m \<Rightarrow> [m] | _ \<Rightarrow> []) @ pushed es"
  by (simp_all add: pushed_def)

lemma stored_simps [simp]:
  "stored [] = []"
  "stored (es @ es') = stored es @ stored es'"
  "stored (e # es) = (case e of Store_result v \<Rightarrow> [v] | _ \<Rightarrow> []) @ stored es"
  by (simp_all add: stored_def)

lemma invoked_simps [simp]:
  "invoked [] = []"
  "invoked (es @ es') = invoked es @ invoked es'"
  "invoked (e # es) = (case e of Context_invoke t f \<Rightarrow> [(t, f)] | _ \<Rightarrow> []) @ invoked es"
  by (simp_all add: invoked_def)

lemma completions_simps [simp]:
  "completions [] = []"
  "completions (es @ es') = completions es @ completions es'"
  "completions (e # es) = (case e of Call_notify_complete f \<Rightarrow> [f] | _ \<Rightarrow> []) @ completions es"
  by (simp_all add: completions_def)

lemma entered_simps [simp]:
  "entered [] = []"
  "entered (es @ es') = entered es @ entered es'"
  "entered (e # es) = (case e of Main_loop_run l \<Rightarrow> [l] | _ \<Rightarrow> []) @ entered es"
  by (simp_all add: entered_def)

lemma called_simps [simp]:
  "called [] = []"
  "called (es @ es') = called es @ called es'"
  "called (e # es) = (case e of Call_direct f \<Rightarrow> [f] | _ \<Rightarrow> []) @ called es"
  by (simp_all add: called_def)

lemma attached_simps [simp]:
  "attached [] = []"
  "attached (es @ es') = attached es @ attached es'"
  "attached (e # es) = (case e of Idle_attach t f \<Rightarrow> [(t, f)] | _ \<Rightarrow> []) @ attached es"
  by (simp_all add: attached_def)

lemma status_under_mutex:
  "under_mutex False (snd (on_installer_status th changed invalidated c))"
  by (cases "status_message changed")
     (auto simp: on_installer_status_def Let_def g_main_context_invoke_def
           split: option.splits prod.splits)

lemma rauc_install_context:
  "fst (rauc_install live b ev co) =
     \<lparr>bundle_path = b, notify_event = ev, notify_complete = co, status_messages = [],
      status_result = 2, mainloop = Some (GMainLoop (g_main_context_new live)),
      loop_context = Some (g_main_context_new live)\<rparr>"
  by (simp add: rauc_install_def install_context_new_def Let_def)

lemma rauc_install_effects:
  "snd (rauc_install live b ev co) = [Store_result (- 2), Store_result 2, Thread_new]"
  by (simp add: rauc_install_def install_context_new_def Let_def)

lemma g_main_context_new_0: "g_main_context_new [0] = 1"
  by (simp add: g_main_context_new_def g_main_context_default_def)

lemma not_invalidated: "invalidated = None \<or> invalidated = Some [] \<Longrightarrow> \<not> has_invalidated invalidated"
  by auto

lemma status_pushed_callback:
  assumes "notify_event c = Some f" and "\<not> has_invalidated invalidated"
  shows "snd (on_installer_status th changed invalidated c) =
      (case status_message changed of
         None \<Rightarrow>
           [Mutex_lock, Mutex_unlock] @
           (if status_messages c \<noteq> []
            then snd (g_main_context_invoke th (loop_context c) f c) else [])
       | Some m \<Rightarrow>
           [Mutex_lock, Queue_push_tail m, Mutex_unlock] @
           snd (g_main_context_invoke th (loop_context c) f
                  (c\<lparr>status_messages := status_messages c @ [m]\<rparr>)))"
proof (cases "status_message changed")
  case None
  with assms show ?thesis by (simp add: status_no_push)
next
  case (Some m)
  with assms show ?thesis by (simp add: status_push)
qed

lemma pushed_invoke [simp]: "pushed (snd (g_main_context_invoke th t f c)) = []"
  by (simp add: invoke_effects)

lemma invoked_invoke [simp]: "invoked (snd (g_main_context_invoke th t f c)) = [(t, f)]"
  by (simp add: invoke_effects)

lemma pushed_status:
  "pushed (snd (on_installer_status th changed invalidated c)) =
     (if has_invalidated invalidated \<or> notify_event c = None then []
      else (case status_message changed of None \<Rightarrow> [] | Some m \<Rightarrow> [m]))"
proof (cases "has_invalidated invalidated")
  case True
  then show ?thesis by (simp add: status_invalidated)
next
  case inv: False
  show ?thesis
  proof (cases "notify_event c")
    case None
    with inv show ?thesis by (simp add: status_no_callback)
  next
    case (Some f)
    with inv show ?thesis
      by (simp add: status_pushed_callback split: option.splits)
  qed
qed

subsection \<open>The text of a progress message determines the percentage and the message\<close>

lemma digit_char_inj: "a < 10 \<Longrightarrow> b < 10 \<Longrightarrow> digit_char a = digit_char b \<Longrightarrow> a = b"
  unfolding digit_char_def
  by (subst (asm) nth_eq_iff_index_eq) simp_all

lemma digit_char_in: "a < 10 \<Longrightarrow> digit_char a \<in> set ''0123456789''"
  unfolding digit_char_def by (rule nth_mem) simp

lemma nat_digits_not_Nil: "nat_digits n \<noteq> []"
  by (subst nat_digits.simps) simp

lemma nat_digits_chars: "set (nat_digits n) \<subseteq> set ''0123456789''"
proof (induction n rule: nat_digits.induct)
  case (1 n)
  show ?case
  proof (cases "n < 10")
    case True
    then show ?thesis
      using digit_char_in [of n] by (subst nat_digits.simps) simp
  next
    case False
    have "n mod 10 < 10" by simp
    then have "digit_char (n mod 10) \<in> set ''0123456789''" by (rule digit_char_in)
    with False "1.IH" show ?thesis
      by (subst nat_digits.simps) simp
  qed
qed

lemma nat_digits_inj: "nat_digits n = nat_digits m \<Longrightarrow> n = m"
proof (induction n arbitrary: m rule: nat_digits.induct)
  case (1 n)
  show ?case
  proof (cases "n < 10")
    case n: True
    show ?thesis
    proof (cases "m < 10")
      case True
      with n "1.prems" show ?thesis
        by (simp add: nat_digits.simps [of n] nat_digits.simps [of m] digit_char_inj)
    next
      case False
      with n "1.prems" nat_digits_not_Nil [of "m div 10"] show ?thesis
        by (simp add: nat_digits.simps [of n] nat_digits.simps [of m])
    qed
  next
    case n: False
    show ?thesis
    proof (cases "m < 10")
      case True
      with n "1.prems" nat_digits_not_Nil [of "n div 10"] show ?thesis
        by (simp add: nat_digits.simps [of n] nat_digits.simps [of m])
    next
      case False
      with n "1.prems" have eq: "nat_digits (n div 10) = nat_digits (m div 10)"
        and d: "digit_char (n mod 10) = digit_char (m mod 10)"
        by (simp_all add: nat_digits.simps [of n] nat_digits.simps [of m])
      from "1.IH" [OF n eq] have "n div 10 = m div 10" .
      moreover from d have "n mod 10 = m mod 10"
        by (intro digit_char_inj) simp_all
      ultimately show ?thesis
        by (metis div_mult_mod_eq)
    qed
  qed
qed

lemma int_decimal_chars: "set (int_decimal i) \<subseteq> set ''-0123456789''"
proof (cases "i < 0")
  case True
  have "set (nat_digits (nat (- i))) \<subseteq> set ''0123456789''" by (rule nat_digits_chars)
  also have "\<dots> \<subseteq> set ''-0123456789''" by (simp add: subset_insertI2)
  finally show ?thesis using True by (simp add: int_decimal_def)
next
  case False
  have "set (nat_digits (nat i)) \<subseteq> set ''0123456789''" by (rule nat_digits_chars)
  also have "\<dots> \<subseteq> set ''-0123456789''" by (simp add: subset_insertI2)
  finally show ?thesis using False by (simp add: int_decimal_def)
qed

lemma int_decimal_not_Nil: "int_decimal i \<noteq> []"
  by (simp add: int_decimal_def nat_digits_not_Nil)

lemma hd_nat_digits: "hd (nat_digits n) \<noteq> CHR ''-''"
proof
  assume h: "hd (nat_digits n) = CHR ''-''"
  have "hd (nat_digits n) \<in> set (nat_digits n)"
    by (rule hd_in_set) (rule nat_digits_not_Nil)
  with nat_digits_chars [of n] have "hd (nat_digits n) \<in> set ''0123456789''" by blast
  with h show False by simp
qed

lemma int_decimal_inj: "int_decimal i = int_decimal j \<Longrightarrow> i = j"
proof -
  assume eq: "int_decimal i = int_decimal j"
  consider "i < 0" "j < 0" | "i < 0" "\<not> j < 0" | "\<not> i < 0" "j < 0" | "\<not> i < 0" "\<not> j < 0"
    by blast
  then show ?thesis
  proof cases
    case 1
    with eq have "nat_digits (nat (- i)) = nat_digits (nat (- j))"
      by (simp add: int_decimal_def)
    then have "nat (- i) = nat (- j)" by (rule nat_digits_inj)
    with 1 show ?thesis by simp
  next
    case 2
    with eq have "CHR ''-'' # nat_digits (nat (- i)) = nat_digits (nat j)"
      by (simp add: int_decimal_def)
    then have "hd (nat_digits (nat j)) = CHR ''-''"
      by (cases "nat_digits (nat j)") simp_all
    with hd_nat_digits show ?thesis by blast
  next
    case 3
    with eq have "CHR ''-'' # nat_digits (nat (- j)) = nat_digits (nat i)"
      by (simp add: int_decimal_def)
    then have "hd (nat_digits (nat i)) = CHR ''-''"
      by (cases "nat_digits (nat i)") simp_all
    with hd_nat_digits show ?thesis by blast
  next
    case 4
    with eq have "nat_digits (nat i) = nat_digits (nat j)"
      by (simp add: int_decimal_def)
    then have "nat i = nat j" by (rule nat_digits_inj)
    with 4 show ?thesis by simp
  qed
qed

lemma pad_left_strip:
  "CHR '' '' \<notin> set s \<Longrightarrow> dropWhile (\<lambda>c. c = CHR '' '') (pad_left w s) = s"
  by (cases s) (auto simp: pad_left_def dropWhile_append)

lemma pad_left_chars: "set (pad_left w s) \<subseteq> insert CHR '' '' (set s)"
  by (auto simp: pad_left_def)

lemma no_percent_in_number: "CHR ''%'' \<notin> set (pad_left 3 (int_decimal i))"
proof
  assume "CHR ''%'' \<in> set (pad_left 3 (int_decimal i))"
  with pad_left_chars [of 3 "int_decimal i"]
  have "CHR ''%'' \<in> insert CHR '' '' (set (int_decimal i))" by blast
  then have "CHR ''%'' \<in> set (int_decimal i)" by simp
  with int_decimal_chars [of i] have "CHR ''%'' \<in> set ''-0123456789''" by blast
  then show False by simp
qed

lemma no_space_in_number: "CHR '' '' \<notin> set (int_decimal i)"
proof
  assume "CHR '' '' \<in> set (int_decimal i)"
  with int_decimal_chars [of i] have "CHR '' '' \<in> set ''-0123456789''" by blast
  then show False by simp
qed

lemma printf_progress_number:
  "takeWhile (\<lambda>c. c \<noteq> CHR ''%'') (printf_progress q n) = pad_left 3 (int_decimal (sint q))"
  using no_percent_in_number [of "sint q"]
  by (simp add: printf_progress_def takeWhile_append)

lemma printf_progress_message:
  "dropWhile (\<lambda>c. c \<noteq> CHR ''%'') (printf_progress q n) = ''% '' @ n"
  using no_percent_in_number [of "sint q"]
  by (simp add: printf_progress_def dropWhile_append)

lemma printf_progress_inj:
  assumes "printf_progress p m = printf_progress p' m'"
  shows "p = p' \<and> m = m'"
proof -
  from assms have "takeWhile (\<lambda>c. c \<noteq> CHR ''%'') (printf_progress p m) =
      takeWhile (\<lambda>c. c \<noteq> CHR ''%'') (printf_progress p' m')" by simp
  then have eq: "pad_left 3 (int_decimal (sint p)) = pad_left 3 (int_decimal (sint p'))"
    by (simp only: printf_progress_number)
  from assms have "dropWhile (\<lambda>c. c \<noteq> CHR ''%'') (printf_progress p m) =
      dropWhile (\<lambda>c. c \<noteq> CHR ''%'') (printf_progress p' m')" by simp
  then have m: "m = m'"
    by (simp only: printf_progress_message) simp
  from eq have "dropWhile (\<lambda>c. c = CHR '' '') (pad_left 3 (int_decimal (sint p))) =
      dropWhile (\<lambda>c. c = CHR '' '') (pad_left 3 (int_decimal (sint p')))" by simp
  then have "int_decimal (sint p) = int_decimal (sint p')"
    by (simp only: pad_left_strip [OF no_space_in_number])
  then have "sint p = sint p'" by (rule int_decimal_inj)
  then have "p = p'" by (rule signed_word_eqI)
  with m show ?thesis by simp
qed

subsection \<open>What the main loop keeps and what it does\<close>

lemma status_keeps:
  "notify_event (fst (on_installer_status th changed invalidated c)) = notify_event c"
  "notify_complete (fst (on_installer_status th changed invalidated c)) = notify_complete c"
  "mainloop (fst (on_installer_status th changed invalidated c)) = mainloop c"
  "loop_context (fst (on_installer_status th changed invalidated c)) = loop_context c"
  "bundle_path (fst (on_installer_status th changed invalidated c)) = bundle_path c"
  by (simp_all add: on_installer_status_def g_main_context_invoke_def Let_def
      split: option.splits)

lemma dispatch_keeps [simp]:
  "notify_event (fst (dispatch th n c)) = notify_event c"
  "notify_complete (fst (dispatch th n c)) = notify_complete c"
  "mainloop (fst (dispatch th n c)) = mainloop c"
  "loop_context (fst (dispatch th n c)) = loop_context c"
  "bundle_path (fst (dispatch th n c)) = bundle_path c"
  by (simp_all add: dispatch_def status_keeps on_installer_completed_def
      split: notification.splits)

lemma status_quits:
  "(Main_loop_quit x \<in> set (snd (on_installer_status th changed invalidated c))) =
     (has_invalidated invalidated \<and> x = mainloop c)"
  by (auto simp: on_installer_status_def g_main_context_invoke_def Let_def
      split: option.splits)

lemma dispatch_quits:
  "(Main_loop_quit x \<in> set (snd (dispatch th n c))) = (ends_wait n \<and> x = mainloop c)"
  by (auto simp: dispatch_def status_quits on_installer_completed_def ends_wait_def
      split: notification.splits)

lemma is_release_simps [simp]:
  "\<not> is_release Mutex_lock"
  "\<not> is_release Mutex_unlock"
  "\<not> is_release (Store_result v)"
  "\<not> is_release (Queue_push_tail m)"
  "\<not> is_release (Main_loop_quit x)"
  "\<not> is_release (Context_invoke t f)"
  "\<not> is_release (Call_direct f)"
  "\<not> is_release (Idle_attach t' f)"
  "\<not> is_release Thread_new"
  "\<not> is_release (Push_thread_default t)"
  "\<not> is_release (Proxy_new_for_bus_sync b)"
  "\<not> is_release (Signal_connect s)"
  "\<not> is_release (Call_install_sync p)"
  "\<not> is_release (Main_loop_run x)"
  "\<not> is_release Handlers_disconnect"
  "\<not> is_release (Call_notify_complete f)"
  "is_release (Pop_thread_default t)"
  "is_release Free_bundle"
  "is_release Mutex_clear"
  "is_release (Context_unref t)"
  "is_release (Main_loop_unref x)"
  "is_release Free_context"
  by (simp_all add: is_release_def)

lemma status_effects_plain:
  "completions (snd (on_installer_status th changed invalidated c)) = []"
  "entered (snd (on_installer_status th changed invalidated c)) = []"
  "list_all (\<lambda>e. \<not> is_release e) (snd (on_installer_status th changed invalidated c))"
  by (simp_all add: on_installer_status_def g_main_context_invoke_def Let_def
      split: option.splits)

lemma dispatch_effects_plain [simp]:
  "completions (snd (dispatch th n c)) = []"
  "entered (snd (dispatch th n c)) = []"
  "list_all (\<lambda>e. \<not> is_release e) (snd (dispatch th n c))"
  by (simp_all add: dispatch_def status_effects_plain on_installer_completed_def
      split: notification.splits)

lemma status_stored:
  "stored (snd (on_installer_status th changed invalidated c)) =
     (if has_invalidated invalidated then [2] else [])"
  by (simp add: on_installer_status_def g_main_context_invoke_def Let_def
      split: option.splits)

lemma status_result_after:
  "status_result (fst (on_installer_status th changed invalidated c)) =
     (if has_invalidated invalidated then 2 else status_result c)"
  by (simp add: on_installer_status_def g_main_context_invoke_def Let_def
      split: option.splits)

lemma dispatch_stored:
  "stored (snd (dispatch th n c)) =
     (case n of
        Completed r \<Rightarrow> [r]
      | Properties_changed changed invalidated \<Rightarrow>
          if has_invalidated invalidated then [2] else [])"
  by (simp add: dispatch_def status_stored on_installer_completed_def
      split: notification.splits)

lemma dispatch_result:
  "status_result (fst (dispatch th n c)) =
     last (status_result c # stored (snd (dispatch th n c)))"
  by (simp add: dispatch_def status_stored status_result_after on_installer_completed_def
      split: notification.splits)



lemma dispatch_queue_empty:
  assumes "status_messages c = []" and "loop_context c = Some x" and "owned th = Some x"
    and "\<forall>f q. notify_event c = Some f \<longrightarrow> on_event th f q = []"
  shows "status_messages (fst (dispatch th n c)) = []"
  using assms
  by (cases n)
     (auto simp: dispatch_def on_installer_status_def on_installer_completed_def
        g_main_context_invoke_def context_or_default_def Let_def split: option.splits)



lemma iter_Cons:
  "g_main_dispatch th (n # ns) c =
     (fst (g_main_dispatch th ns (fst (dispatch th n c))),
      snd (dispatch th n c) @ snd (g_main_dispatch th ns (fst (dispatch th n c))))"
  by (simp add: case_prod_beta)

lemma iter_keeps [simp]:
  "notify_event (fst (g_main_dispatch th ns c)) = notify_event c"
  "notify_complete (fst (g_main_dispatch th ns c)) = notify_complete c"
  "mainloop (fst (g_main_dispatch th ns c)) = mainloop c"
  "loop_context (fst (g_main_dispatch th ns c)) = loop_context c"
  "bundle_path (fst (g_main_dispatch th ns c)) = bundle_path c"
  by (induction ns arbitrary: c; simp add: iter_Cons del: g_main_dispatch.simps(2))+

lemma iter_quits:
  "(Main_loop_quit x \<in> set (snd (g_main_dispatch th ns c))) =
     (list_ex ends_wait ns \<and> x = mainloop c)"
  by (induction ns arbitrary: c)
     (auto simp: iter_Cons dispatch_quits simp del: g_main_dispatch.simps(2))

lemma iter_effects_plain [simp]:
  "completions (snd (g_main_dispatch th ns c)) = []"
  "entered (snd (g_main_dispatch th ns c)) = []"
  "list_all (\<lambda>e. \<not> is_release e) (snd (g_main_dispatch th ns c))"
  by (induction ns arbitrary: c; simp add: iter_Cons del: g_main_dispatch.simps(2))+

lemma iter_result:
  "status_result (fst (g_main_dispatch th ns c)) =
     last (status_result c # stored (snd (g_main_dispatch th ns c)))"
proof (induction ns arbitrary: c)
  case Nil
  show ?case by simp
next
  case (Cons n ns)
  from Cons.IH [of "fst (dispatch th n c)"] show ?case
    by (simp add: iter_Cons dispatch_result last_append del: g_main_dispatch.simps(2))
qed



lemma iter_queue_empty:
  assumes "status_messages c = []" and "loop_context c = Some x" and "owned th = Some x"
    and "\<forall>f q. notify_event c = Some f \<longrightarrow> on_event th f q = []"
  shows "status_messages (fst (g_main_dispatch th ns c)) = []"
  using assms
proof (induction ns arbitrary: c)
  case Nil
  then show ?case by simp
next
  case (Cons n ns)
  from Cons.prems have e: "status_messages (fst (dispatch th n c)) = []"
    by (intro dispatch_queue_empty [where x = x]) simp_all
  from Cons.prems have "status_messages (fst (g_main_dispatch th ns (fst (dispatch th n c)))) = []"
    by (intro Cons.IH e) simp_all
  then show ?case
    by (simp add: iter_Cons del: g_main_dispatch.simps(2))
qed



lemma run_Cons:
  "g_main_loop_run cbs l (b # bs) c =
     (if Main_loop_quit (Some l)
           \<in> set (snd (g_main_dispatch \<lparr>owned = Some (loop_on l), on_event = cbs\<rparr> b c))
      then (fst (g_main_dispatch \<lparr>owned = Some (loop_on l), on_event = cbs\<rparr> b c),
            snd (g_main_dispatch \<lparr>owned = Some (loop_on l), on_event = cbs\<rparr> b c), True)
      else (fst (g_main_loop_run cbs l bs
                   (fst (g_main_dispatch \<lparr>owned = Some (loop_on l), on_event = cbs\<rparr> b c))),
            snd (g_main_dispatch \<lparr>owned = Some (loop_on l), on_event = cbs\<rparr> b c) @
            fst (snd (g_main_loop_run cbs l bs
                   (fst (g_main_dispatch \<lparr>owned = Some (loop_on l), on_event = cbs\<rparr> b c)))),
            snd (snd (g_main_loop_run cbs l bs
                   (fst (g_main_dispatch \<lparr>owned = Some (loop_on l), on_event = cbs\<rparr> b c))))))"
  by (simp add: Let_def case_prod_beta)

lemma run_keeps [simp]:
  "notify_event (fst (g_main_loop_run cbs l bs c)) = notify_event c"
  "notify_complete (fst (g_main_loop_run cbs l bs c)) = notify_complete c"
  "mainloop (fst (g_main_loop_run cbs l bs c)) = mainloop c"
  "loop_context (fst (g_main_loop_run cbs l bs c)) = loop_context c"
  "bundle_path (fst (g_main_loop_run cbs l bs c)) = bundle_path c"
  by (induction bs arbitrary: c; simp add: run_Cons del: g_main_loop_run.simps(2))+

lemma run_returns:
  "mainloop c = Some l \<Longrightarrow>
   snd (snd (g_main_loop_run cbs l bs c)) = list_ex (list_ex ends_wait) bs"
  by (induction bs arbitrary: c)
     (simp_all add: run_Cons iter_quits del: g_main_loop_run.simps(2))

lemma run_effects_plain [simp]:
  "completions (fst (snd (g_main_loop_run cbs l bs c))) = []"
  "entered (fst (snd (g_main_loop_run cbs l bs c))) = []"
  "list_all (\<lambda>e. \<not> is_release e) (fst (snd (g_main_loop_run cbs l bs c)))"
  by (induction bs arbitrary: c; simp add: run_Cons del: g_main_loop_run.simps(2))+

lemma run_result:
  "status_result (fst (g_main_loop_run cbs l bs c)) =
     last (status_result c # stored (fst (snd (g_main_loop_run cbs l bs c))))"
proof (induction bs arbitrary: c)
  case Nil
  show ?case by simp
next
  case (Cons b bs)
  let ?d = "g_main_dispatch \<lparr>owned = Some (loop_on l), on_event = cbs\<rparr> b c"
  show ?case
  proof (cases "Main_loop_quit (Some l) \<in> set (snd ?d)")
    case True
    then show ?thesis
      by (simp add: run_Cons iter_result del: g_main_loop_run.simps(2))
  next
    case False
    then show ?thesis
      using Cons.IH [of "fst ?d"]
      by (simp add: run_Cons iter_result last_append del: g_main_loop_run.simps(2))
  qed
qed


lemma run_queue_empty:
  assumes "status_messages c = []" and "loop_context c = Some (loop_on l)"
    and "\<forall>f q. notify_event c = Some f \<longrightarrow> cbs f q = []"
  shows "status_messages (fst (g_main_loop_run cbs l bs c)) = []"
  using assms
proof (induction bs arbitrary: c)
  case Nil
  then show ?case by simp
next
  case (Cons b bs)
  let ?d = "g_main_dispatch \<lparr>owned = Some (loop_on l), on_event = cbs\<rparr> b c"
  from Cons.prems have e: "status_messages (fst ?d) = []"
    by (intro iter_queue_empty [where x = "loop_on l"]) simp_all
  from Cons.prems have "status_messages (fst (g_main_loop_run cbs l bs (fst ?d))) = []"
    by (intro Cons.IH e) simp_all
  with e show ?case
    by (simp add: run_Cons del: g_main_loop_run.simps(2))
qed



lemma run_last_iteration:
  assumes "mainloop c = Some l" and "list_ex ends_wait b"
  shows "g_main_loop_run cbs l (b # bs) c =
     (fst (g_main_dispatch \<lparr>owned = Some (loop_on l), on_event = cbs\<rparr> b c),
      snd (g_main_dispatch \<lparr>owned = Some (loop_on l), on_event = cbs\<rparr> b c), True)"
  using assms by (simp add: run_Cons iter_quits del: g_main_loop_run.simps(2))


lemma run_completed:
  "g_main_loop_run cbs l ([Completed r] # bs) c =
     (if 0 \<le> sint r \<and> mainloop c = Some l
      then (c\<lparr>status_result := r\<rparr>,
            [Mutex_lock, Store_result r, Mutex_unlock, Main_loop_quit (Some l)], True)
      else (case g_main_loop_run cbs l bs (c\<lparr>status_result := r\<rparr>) of
              (c2, es2, returned) \<Rightarrow>
                (c2, [Mutex_lock, Store_result r, Mutex_unlock] @
                     (if 0 \<le> sint r then [Main_loop_quit (mainloop c)] else []) @ es2,
                 returned)))"
  by (auto simp: dispatch_def on_installer_completed_def split: prod.splits)

lemma run_status_invalidated:
  "has_invalidated invalidated \<Longrightarrow> mainloop c = Some l \<Longrightarrow>
   g_main_loop_run cbs l ([Properties_changed changed invalidated] # bs) c =
     (c\<lparr>status_result := 2\<rparr>,
      [Mutex_lock, Store_result 2, Mutex_unlock, Main_loop_quit (Some l)], True)"
  by (simp add: dispatch_def status_invalidated)

subsection \<open>The thread, from start to end\<close>

lemma free_effects:
  "fst (install_context_free (Some c)) =
     [Free_bundle, Mutex_clear, Context_unref (loop_context c)] @
     (if 0 \<le> sint (status_result c) \<and> status_messages c = []
      then [Main_loop_unref (mainloop c), Free_context] else [])"
  by (simp add: install_context_free_def Let_def)

lemma free_abort:
  "snd (install_context_free (Some c)) =
     (if \<not> 0 \<le> sint (status_result c) then Some Assert_status_result
      else if status_messages c \<noteq> [] then Some Assert_queue_empty else None)"
  by (simp add: install_context_free_def Let_def)

lemma out_loop_context [simp]: "fst (out_loop c es0) = c"
  by (simp add: out_loop_def split: prod.splits)

lemma out_loop_effects:
  "fst (snd (out_loop c es0)) =
     es0 @ Handlers_disconnect #
     (case notify_complete c of None \<Rightarrow> [] | Some f \<Rightarrow> [Call_notify_complete f]) @
     Pop_thread_default (loop_context c) # fst (install_context_free (Some c))"
  by (simp add: out_loop_def split: prod.splits)

lemma out_loop_outcome:
  "snd (snd (out_loop c es0)) =
     (if \<not> 0 \<le> sint (status_result c) then Aborted Assert_status_result
      else if status_messages c \<noteq> [] then Aborted Assert_queue_empty else Returned)"
  by (simp add: out_loop_def install_context_free_def Let_def split: prod.splits)

lemma thread_early:
  assumes "early_exit env"
  shows "\<exists>es0. silent es0 \<and> install_loop_thread env c = out_loop c es0"
proof -
  let ?bus = "if starter_bus_type env = Some ''session''
              then G_BUS_TYPE_SESSION else G_BUS_TYPE_SYSTEM"
  let ?e1 = "[Push_thread_default (loop_context c), Proxy_new_for_bus_sync ?bus]"
  let ?e2 = "?e1 @ [Signal_connect ''g-properties-changed'']"
  let ?e3 = "?e2 @ [Signal_connect ''completed'']"
  let ?e4 = "?e3 @ [Call_install_sync (bundle_path c)]"
  have s: "silent ?e1" "silent ?e2" "silent ?e3" "silent ?e4"
    by (simp_all add: silent_def)
  from assms have "install_loop_thread env c = out_loop c ?e1
      \<or> install_loop_thread env c = out_loop c ?e2
      \<or> install_loop_thread env c = out_loop c ?e3
      \<or> install_loop_thread env c = out_loop c ?e4"
    by (auto simp: install_loop_thread_def early_exit_def Let_def)
  with s show ?thesis by blast
qed

lemma thread_loop:
  assumes "\<not> early_exit env" and "mainloop c = Some l"
  shows "\<exists>es0. silent es0 \<and>
      install_loop_thread env c =
        (if list_ex (list_ex ends_wait) (signals env)
         then out_loop (fst (g_main_loop_run (callbacks env) l (signals env) c))
                (es0 @ Main_loop_run (Some l) #
                 fst (snd (g_main_loop_run (callbacks env) l (signals env) c)))
         else (fst (g_main_loop_run (callbacks env) l (signals env) c),
               es0 @ Main_loop_run (Some l) #
               fst (snd (g_main_loop_run (callbacks env) l (signals env) c)),
               Blocked))"
proof -
  let ?bus = "if starter_bus_type env = Some ''session''
              then G_BUS_TYPE_SESSION else G_BUS_TYPE_SYSTEM"
  let ?e4 = "[Push_thread_default (loop_context c), Proxy_new_for_bus_sync ?bus,
              Signal_connect ''g-properties-changed'', Signal_connect ''completed'',
              Call_install_sync (bundle_path c)]"
  have s: "silent ?e4" by (simp add: silent_def)
  from assms run_returns [OF assms(2), of "callbacks env" "signals env"]
  have "install_loop_thread env c =
        (if list_ex (list_ex ends_wait) (signals env)
         then out_loop (fst (g_main_loop_run (callbacks env) l (signals env) c))
                (?e4 @ Main_loop_run (Some l) #
                 fst (snd (g_main_loop_run (callbacks env) l (signals env) c)))
         else (fst (g_main_loop_run (callbacks env) l (signals env) c),
               ?e4 @ Main_loop_run (Some l) #
               fst (snd (g_main_loop_run (callbacks env) l (signals env) c)),
               Blocked))"
    by (simp add: install_loop_thread_def early_exit_def Let_def case_prod_beta)
  with s show ?thesis by blast
qed

lemma rauc_install_run_parts:
  "run_context (rauc_install_run env live b ev co) =
     fst (install_loop_thread env (fst (rauc_install live b ev co)))"
  "run_effects (rauc_install_run env live b ev co) =
     [Store_result (- 2), Store_result 2, Thread_new] @
     fst (snd (install_loop_thread env (fst (rauc_install live b ev co))))"
  "run_outcome (rauc_install_run env live b ev co) =
     snd (snd (install_loop_thread env (fst (rauc_install live b ev co))))"
  by (simp_all add: rauc_install_run_def run_context_def run_effects_def run_outcome_def
      case_prod_beta rauc_install_effects)

lemma thread_ends:
  assumes "early_exit env \<or> list_ex (list_ex ends_wait) (signals env)" and "mainloop c = Some l"
  shows "\<exists>pre c'. completions pre = [] \<and> list_all (\<lambda>e. \<not> is_release e) pre
      \<and> notify_complete c' = notify_complete c
      \<and> install_loop_thread env c = out_loop c' pre"
proof (cases "early_exit env")
  case True
  then obtain es0 where "silent es0" and "install_loop_thread env c = out_loop c es0"
    using thread_early by blast
  then show ?thesis
    by (auto simp: silent_def)
next
  case False
  let ?R = "g_main_loop_run (callbacks env) l (signals env) c"
  from False assms(1) have e: "list_ex (list_ex ends_wait) (signals env)" by simp
  from thread_loop [OF False assms(2)] e obtain es0 where s: "silent es0"
    and t: "install_loop_thread env c =
      out_loop (fst ?R) (es0 @ Main_loop_run (Some l) # fst (snd ?R))"
    by auto
  from s have "completions (es0 @ Main_loop_run (Some l) # fst (snd ?R)) = []"
    by (simp add: silent_def)
  moreover from s have
    "list_all (\<lambda>e. \<not> is_release e) (es0 @ Main_loop_run (Some l) # fst (snd ?R))"
    by (simp add: silent_def)
  moreover have "notify_complete (fst ?R) = notify_complete c" by simp
  ultimately show ?thesis using t by blast
qed

lemma completions_none:
  "completions es = [] \<Longrightarrow> Call_notify_complete f \<notin> set es"
  by (induction es) (auto split: effect.splits)

lemma takeWhile_complete:
  "completions pre = [] \<Longrightarrow>
   takeWhile (\<lambda>e. e \<noteq> Call_notify_complete f) (pre @ Call_notify_complete f # post) = pre"
  using completions_none [of pre f] by (simp add: takeWhile_append)

lemma dropWhile_complete:
  "completions pre = [] \<Longrightarrow>
   dropWhile (\<lambda>e. e \<noteq> Call_notify_complete f) (pre @ Call_notify_complete f # post) =
     Call_notify_complete f # post"
  using completions_none [of pre f] by (simp add: dropWhile_append)

lemma free_completions [simp]: "completions (fst (install_context_free (Some c))) = []"
  by (simp add: free_effects)


lemma free_stored [simp]: "stored (fst (install_context_free (Some c))) = []"
  by (simp add: free_effects)

lemma free_invoked [simp]:
  "invoked (fst (install_context_free (Some c))) = []"
  "called (fst (install_context_free (Some c))) = []"
  "attached (fst (install_context_free (Some c))) = []"
  by (simp_all add: free_effects)



subsection \<open>The four runs, evaluated\<close>

lemmas run_defs =
  rauc_install_run_def rauc_install_def install_context_new_def
  g_main_context_new_def g_main_context_default_def install_loop_thread_def
  out_loop_def install_context_free_def dispatch_def on_installer_status_def
  on_installer_completed_def g_main_context_invoke_def context_or_default_def
  status_message_def g_variant_lookup_s_def g_variant_lookup_isi_def
  printf_progress_def pad_left_def int_decimal_def nat_digits.simps digit_char_def
  has_invalidated_def Let_def remote_def progress_def drain_def
  run_effects_def run_context_def run_outcome_def



lemma run_scenario_C:
  "rauc_install_run scenario_C [0] (Some ''update.raucb'') (Some 7) (Some 8) =
   (\<lparr>bundle_path = Some ''update.raucb'', notify_event = Some 7, notify_complete = Some 8,
     status_messages = [], status_result = 2, mainloop = Some (GMainLoop 1),
     loop_context = Some 1\<rparr>,
    [Store_result (- 2), Store_result 2, Thread_new, Push_thread_default (Some 1),
     Proxy_new_for_bus_sync G_BUS_TYPE_SYSTEM, Signal_connect ''g-properties-changed'',
     Signal_connect ''completed'', Call_install_sync (Some ''update.raucb''),
     Main_loop_run (Some (GMainLoop 1)),
     Mutex_lock, Queue_push_tail '' 10% checking'', Mutex_unlock,
     Context_invoke (Some 1) 7, Call_direct 7,
     Mutex_lock, Store_result 2, Mutex_unlock, Main_loop_quit (Some (GMainLoop 1)),
     Handlers_disconnect, Call_notify_complete 8, Pop_thread_default (Some 1),
     Free_bundle, Mutex_clear, Context_unref (Some 1),
     Main_loop_unref (Some (GMainLoop 1)), Free_context],
    Returned)"
  by (simp add: scenario_C_def run_defs)

lemma run_scenario_D:
  "rauc_install_run scenario_D [0] (Some ''update.raucb'') (Some 7) (Some 8) =
   (\<lparr>bundle_path = Some ''update.raucb'', notify_event = Some 7, notify_complete = Some 8,
     status_messages = [], status_result = 2, mainloop = Some (GMainLoop 1),
     loop_context = Some 1\<rparr>,
    [Store_result (- 2), Store_result 2, Thread_new, Push_thread_default (Some 1),
     Proxy_new_for_bus_sync G_BUS_TYPE_SYSTEM, Signal_connect ''g-properties-changed'',
     Signal_connect ''completed'', Call_install_sync (Some ''update.raucb''),
     Handlers_disconnect, Call_notify_complete 8, Pop_thread_default (Some 1),
     Free_bundle, Mutex_clear, Context_unref (Some 1),
     Main_loop_unref (Some (GMainLoop 1)), Free_context],
    Returned)"
  by (simp add: scenario_D_def run_defs)

subsection \<open>The completion handler\<close>

text \<open>
  C6. For a \<open>completed\<close> signal with the code \<open>r\<close>, \<^verbatim>\<open>on_installer_completed\<close> stores
  \<open>r\<close> into \<^verbatim>\<open>status_result\<close>, once, while it holds \<^verbatim>\<open>status_mutex\<close>, the mutex that
  \<^verbatim>\<open>on_installer_status\<close> holds when it pushes to the queue. It quits the main loop if and
  only if \<open>r\<close> is not negative: the running loop returns at the end of the iteration
  in which it has handled a code that is not negative and leaves the later iterations
  undispatched, and it goes on with the next iteration after a negative code.
\<close>

theorem completed_stores_result_under_mutex:
  assumes "mainloop c = Some l"
  shows "status_result (fst (on_installer_completed r c)) = r
    \<and> stored (snd (on_installer_completed r c)) = [r]
    \<and> under_mutex False (snd (on_installer_completed r c))
    \<and> under_mutex False (snd (on_installer_status th changed invalidated c))
    \<and> (Main_loop_quit (mainloop c) \<in> set (snd (on_installer_completed r c))) = (0 \<le> sint r)
    \<and> (0 \<le> sint r \<longrightarrow>
         g_main_loop_run cbs l ([Completed r] # later) c =
           (c\<lparr>status_result := r\<rparr>,
            [Mutex_lock, Store_result r, Mutex_unlock, Main_loop_quit (Some l)], True))
    \<and> (sint r < 0 \<longrightarrow>
         g_main_loop_run cbs l ([Completed r] # later) c =
           (case g_main_loop_run cbs l later (c\<lparr>status_result := r\<rparr>) of
              (c2, es2, returned) \<Rightarrow>
                (c2, [Mutex_lock, Store_result r, Mutex_unlock] @ es2, returned)))
    \<and> (0 \<le> sint r \<and> Completed r \<in> set ready \<longrightarrow>
         snd (snd (g_main_loop_run cbs l (ready # later) c))
         \<and> g_main_loop_run cbs l (ready # later) c = g_main_loop_run cbs l [ready] c)"
proof -
  have last: "snd (snd (g_main_loop_run cbs l (ready # later) c))
      \<and> snd (snd (g_main_loop_run cbs l [ready] c))
      \<and> g_main_loop_run cbs l (ready # later) c = g_main_loop_run cbs l [ready] c"
    if "0 \<le> sint r" and "Completed r \<in> set ready"
  proof -
    from that have "ends_wait (Completed r)"
      by (simp add: ends_wait_def)
    with that have "list_ex ends_wait ready"
      unfolding list_ex_iff by blast
    from run_last_iteration [OF assms this, of cbs later]
      run_last_iteration [OF assms this, of cbs "[]"]
    show ?thesis by simp
  qed
  have "under_mutex False (snd (on_installer_completed r c))"
    by (simp add: on_installer_completed_def)
  moreover have "stored (snd (on_installer_completed r c)) = [r]"
    by (simp add: on_installer_completed_def)
  moreover have
    "(Main_loop_quit (mainloop c) \<in> set (snd (on_installer_completed r c))) = (0 \<le> sint r)"
    by (simp add: on_installer_completed_def)
  moreover have "status_result (fst (on_installer_completed r c)) = r"
    by (simp add: on_installer_completed_def)
  ultimately show ?thesis
    using assms status_under_mutex [of th changed invalidated c] last
    by (simp add: run_completed del: g_main_loop_run.simps)
qed

theorem completed_stores_result_under_mutex_witness:
  "mainloop (fst (rauc_install [0] (Some ''update.raucb'') (Some 7) (Some 8))) =
     Some (GMainLoop 1)
   \<and> g_main_loop_run drain (GMainLoop 1) [[Completed 1], [Completed 0]]
       (fst (rauc_install [0] (Some ''update.raucb'') (Some 7) (Some 8))) =
     ((fst (rauc_install [0] (Some ''update.raucb'') (Some 7) (Some 8)))
        \<lparr>status_result := 1\<rparr>,
      [Mutex_lock, Store_result 1, Mutex_unlock, Main_loop_quit (Some (GMainLoop 1))], True)
   \<and> g_main_loop_run drain (GMainLoop 1) [[Completed (- 1)]]
       (fst (rauc_install [0] (Some ''update.raucb'') (Some 7) (Some 8))) =
     ((fst (rauc_install [0] (Some ''update.raucb'') (Some 7) (Some 8)))
        \<lparr>status_result := - 1\<rparr>,
      [Mutex_lock, Store_result (- 1), Mutex_unlock], False)"
proof -
  let ?c = "fst (rauc_install [0] (Some ''update.raucb'') (Some 7) (Some 8))"
  have h: "mainloop ?c = Some (GMainLoop 1)"
    by (simp add: rauc_install_context g_main_context_new_0)
  have pos: "0 \<le> sint (1 :: gint)" and neg: "sint (- 1 :: gint) < 0"
    by simp_all
  from completed_stores_result_under_mutex
    [OF h, where r = 1 and cbs = drain and later = "[[Completed 0]]"] pos
  have "g_main_loop_run drain (GMainLoop 1) [[Completed 1], [Completed 0]] ?c =
     (?c\<lparr>status_result := 1\<rparr>,
      [Mutex_lock, Store_result 1, Mutex_unlock, Main_loop_quit (Some (GMainLoop 1))], True)"
    by blast
  moreover from completed_stores_result_under_mutex
    [OF h, where r = "- 1" and cbs = drain and later = "[]"] neg
  have "g_main_loop_run drain (GMainLoop 1) [[Completed (- 1)]] ?c =
     (?c\<lparr>status_result := - 1\<rparr>, [Mutex_lock, Store_result (- 1), Mutex_unlock], False)"
    by simp
  ultimately show ?thesis using h by simp
qed

subsection \<open>Invalidated properties\<close>

text \<open>
  C10. When a notification reports an invalidated property (\<^verbatim>\<open>invalidated[0]\<close> is there),
  whatever it carries as changed properties, \<^verbatim>\<open>on_installer_status\<close> sets
  \<^verbatim>\<open>status_result\<close> to 2 and quits the main loop; it pushes nothing to the queue and
  requests no delivery, and the running loop returns at the end of the iteration in which
  it has handled this notification.
\<close>

theorem invalidated_takes_priority:
  assumes "invalidated = Some (p # ps)"
  shows "status_result (fst (on_installer_status th changed invalidated c)) = 2
    \<and> status_messages (fst (on_installer_status th changed invalidated c)) = status_messages c
    \<and> pushed (snd (on_installer_status th changed invalidated c)) = []
    \<and> invoked (snd (on_installer_status th changed invalidated c)) = []
    \<and> stored (snd (on_installer_status th changed invalidated c)) = [2]
    \<and> Main_loop_quit (mainloop c) \<in> set (snd (on_installer_status th changed invalidated c))
    \<and> (mainloop c = Some l \<longrightarrow>
         g_main_loop_run cbs l ([Properties_changed changed invalidated] # later) c =
           (c\<lparr>status_result := 2\<rparr>,
            [Mutex_lock, Store_result 2, Mutex_unlock, Main_loop_quit (Some l)], True))
    \<and> (mainloop c = Some l \<and> Properties_changed changed invalidated \<in> set ready \<longrightarrow>
         snd (snd (g_main_loop_run cbs l (ready # later) c))
         \<and> g_main_loop_run cbs l (ready # later) c = g_main_loop_run cbs l [ready] c)"
proof -
  from assms have inv: "has_invalidated invalidated" by simp
  have last: "snd (snd (g_main_loop_run cbs l (ready # later) c))
      \<and> snd (snd (g_main_loop_run cbs l [ready] c))
      \<and> g_main_loop_run cbs l (ready # later) c = g_main_loop_run cbs l [ready] c"
    if m: "mainloop c = Some l" and "Properties_changed changed invalidated \<in> set ready"
  proof -
    from inv have "ends_wait (Properties_changed changed invalidated)"
      by (simp add: ends_wait_def)
    with that have "list_ex ends_wait ready"
      unfolding list_ex_iff by blast
    from run_last_iteration [OF m this, of cbs later]
      run_last_iteration [OF m this, of cbs "[]"]
    show ?thesis by simp
  qed
  have h: "on_installer_status th changed invalidated c =
     (c\<lparr>status_result := 2\<rparr>,
      [Mutex_lock, Store_result 2, Mutex_unlock, Main_loop_quit (mainloop c)])"
    by (rule status_invalidated [OF inv])
  show ?thesis
    unfolding h using run_status_invalidated [OF inv] last
    by (simp del: g_main_loop_run.simps)
qed

theorem invalidated_takes_priority_witness:
  "spec_classify [(''Operation'', GV_s ''installing'')] = Some (OperationChanged ''installing'')
   \<and> g_main_loop_run drain (GMainLoop 1)
       [[Properties_changed [(''Operation'', GV_s ''installing'')] (Some [''Operation''])],
        [Properties_changed [(''Operation'', GV_s ''idle'')] None]]
       (fst (rauc_install [0] (Some ''update.raucb'') (Some 7) (Some 8))) =
     ((fst (rauc_install [0] (Some ''update.raucb'') (Some 7) (Some 8)))
        \<lparr>status_result := 2\<rparr>,
      [Mutex_lock, Store_result 2, Mutex_unlock, Main_loop_quit (Some (GMainLoop 1))], True)
   \<and> pushed (snd (on_installer_status \<lparr>owned = Some 1, on_event = drain\<rparr>
        [(''Operation'', GV_s ''installing'')] (Some [''Operation''])
        (fst (rauc_install [0] (Some ''update.raucb'') (Some 7) (Some 8))))) = []"
proof -
  let ?c = "fst (rauc_install [0] (Some ''update.raucb'') (Some 7) (Some 8))"
  have h: "mainloop ?c = Some (GMainLoop 1)"
    by (simp add: rauc_install_context g_main_context_new_0)
  have cl: "spec_classify [(''Operation'', GV_s ''installing'')] =
      Some (OperationChanged ''installing'')"
    by (simp add: spec_classify_def g_variant_lookup_s_def)
  from invalidated_takes_priority
    [OF refl, where p = "''Operation''" and ps = "[]" and c = ?c and l = "GMainLoop 1"
       and th = "\<lparr>owned = Some 1, on_event = drain\<rparr>"
       and changed = "[(''Operation'', GV_s ''installing'')]" and cbs = drain
       and later = "[[Properties_changed [(''Operation'', GV_s ''idle'')] None]]"] h cl
  show ?thesis by blast
qed

subsection \<open>Which message a notification queues\<close>

text \<open>
  C8, as amended. \<^verbatim>\<open>on_installer_status\<close> pushes at most one message for a notification.
  When an on-event callback is registered and no property is invalidated, the message is
  the text of the record that the priority rule of the specification chooses (operation
  name, else progress triple, else error message that is not empty; nothing otherwise).
  When no on-event callback is registered, or a property is invalidated, it pushes
  nothing.
\<close>

theorem status_record_by_priority:
  assumes "notify_event c = Some f" and "invalidated = None \<or> invalidated = Some []"
  shows "pushed (snd (on_installer_status th changed invalidated c)) =
           (case spec_classify changed of None \<Rightarrow> [] | Some r \<Rightarrow> [record_text r])
    \<and> length (pushed (snd (on_installer_status th' changed' invalidated' c'))) \<le> 1
    \<and> (notify_event c' = None \<longrightarrow>
          pushed (snd (on_installer_status th' changed' invalidated' c')) = [])
    \<and> (has_invalidated invalidated' \<longrightarrow>
          pushed (snd (on_installer_status th' changed' invalidated' c')) = [])"
proof -
  from assms(2) have "\<not> has_invalidated invalidated" by (rule not_invalidated)
  with assms(1) have "pushed (snd (on_installer_status th changed invalidated c)) =
      (case spec_classify changed of None \<Rightarrow> [] | Some r \<Rightarrow> [record_text r])"
    by (simp add: pushed_status status_message_classify split: option.splits)
  moreover have "length (pushed (snd (on_installer_status th' changed' invalidated' c'))) \<le> 1"
    by (simp add: pushed_status split: option.splits)
  ultimately show ?thesis
    by (simp add: pushed_status)
qed

theorem status_record_by_priority_witness:
  "notify_event (fst (rauc_install [0] (Some ''update.raucb'') (Some 7) (Some 8))) = Some 7
   \<and> pushed (snd (on_installer_status \<lparr>owned = Some 1, on_event = drain\<rparr>
      [(''LastError'', GV_s ''bad signature''), (''Progress'', GV_isi 50 ''writing'' 1)]
      (Some []) (fst (rauc_install [0] (Some ''update.raucb'') (Some 7) (Some 8))))) =
     ['' 50% writing'']"
proof -
  let ?c = "fst (rauc_install [0] (Some ''update.raucb'') (Some 7) (Some 8))"
  have h1: "notify_event ?c = Some 7" by (simp add: rauc_install_context)
  have h2: "Some [] = None \<or> Some [] = Some ([] :: string list)" by simp
  have cl: "spec_classify
      [(''LastError'', GV_s ''bad signature''), (''Progress'', GV_isi 50 ''writing'' 1)] =
      Some (ProgressChanged 50 ''writing'' 1)"
    by (simp add: spec_classify_def g_variant_lookup_s_def g_variant_lookup_isi_def)
  have tx: "record_text (ProgressChanged 50 ''writing'' 1) = '' 50% writing''"
    by (simp add: record_text_def printf_progress_def pad_left_def int_decimal_def
        nat_digits.simps digit_char_def)
  from status_record_by_priority
    [OF h1 h2, where th = "\<lparr>owned = Some 1, on_event = drain\<rparr>"
       and changed = "[(''LastError'', GV_s ''bad signature''),
                       (''Progress'', GV_isi 50 ''writing'' 1)]"]
  show ?thesis using h1 by (simp add: cl tx)
qed

text \<open>
  C8 as stated fails without a callback: a notification with an operation name, handled
  while \<^verbatim>\<open>notify_event\<close> is \<^verbatim>\<open>NULL\<close>, leaves the context as it was and has no effect.
\<close>

theorem operation_without_callback_counterexample:
  "spec_classify [(''Operation'', GV_s ''installing'')] = Some (OperationChanged ''installing'')
   \<and> on_installer_status \<lparr>owned = Some 1, on_event = drain\<rparr>
        [(''Operation'', GV_s ''installing'')] (Some [])
        (fst (rauc_install [0] (Some ''update.raucb'') None (Some 8))) =
      (fst (rauc_install [0] (Some ''update.raucb'') None (Some 8)), [])
   \<and> pushed (snd (on_installer_status \<lparr>owned = Some 1, on_event = drain\<rparr>
        [(''Operation'', GV_s ''installing'')] (Some [])
        (fst (rauc_install [0] (Some ''update.raucb'') None (Some 8))))) \<noteq>
      [record_text (OperationChanged ''installing'')]"
  by (simp add: rauc_install_context spec_classify_def record_text_def
      g_variant_lookup_s_def on_installer_status_def)

subsection \<open>Pushing and requesting delivery\<close>

text \<open>
  C3, as amended. For a notification that classifies into a record and invalidates nothing:
  when an on-event callback is registered, the handler locks the mutex, pushes the text of
  the record, unlocks, and then requests one delivery of the callback on
  \<^verbatim>\<open>loop_context\<close>; when none is registered, the handler does nothing at all, so no
  record is appended and no delivery is requested.
\<close>

theorem record_pushed_only_with_callback:
  assumes "spec_classify changed = Some r" and "invalidated = None \<or> invalidated = Some []"
  shows "(case notify_event c of
            None \<Rightarrow> on_installer_status th changed invalidated c = (c, [])
          | Some f \<Rightarrow>
              take 4 (snd (on_installer_status th changed invalidated c)) =
                [Mutex_lock, Queue_push_tail (record_text r), Mutex_unlock,
                 Context_invoke (loop_context c) f]
              \<and> pushed (snd (on_installer_status th changed invalidated c)) = [record_text r]
              \<and> invoked (snd (on_installer_status th changed invalidated c)) =
                  [(loop_context c, f)])"
proof -
  from assms(2) have inv: "\<not> has_invalidated invalidated" by (rule not_invalidated)
  from assms(1) have m: "status_message changed = Some (record_text r)"
    by (simp add: status_message_classify)
  show ?thesis
  proof (cases "notify_event c")
    case None
    with inv show ?thesis by (simp add: status_no_callback)
  next
    case (Some f)
    with inv m show ?thesis
      by (simp add: status_pushed_callback invoke_effects)
  qed
qed

theorem record_pushed_only_with_callback_witness:
  "spec_classify [(''Operation'', GV_s ''installing'')] = Some (OperationChanged ''installing'')
   \<and> take 4 (snd (on_installer_status \<lparr>owned = Some 1, on_event = drain\<rparr>
      [(''Operation'', GV_s ''installing'')] None
      (fst (rauc_install [0] (Some ''update.raucb'') (Some 7) (Some 8))))) =
     [Mutex_lock, Queue_push_tail ''installing'', Mutex_unlock, Context_invoke (Some 1) 7]
   \<and> on_installer_status \<lparr>owned = Some 1, on_event = drain\<rparr>
      [(''Operation'', GV_s ''installing'')] None
      (fst (rauc_install [0] (Some ''update.raucb'') None (Some 8))) =
     (fst (rauc_install [0] (Some ''update.raucb'') None (Some 8)), [])"
proof -
  let ?c = "fst (rauc_install [0] (Some ''update.raucb'') (Some 7) (Some 8))"
  let ?d = "fst (rauc_install [0] (Some ''update.raucb'') None (Some 8))"
  have cl: "spec_classify [(''Operation'', GV_s ''installing'')] =
      Some (OperationChanged ''installing'')"
    by (simp add: spec_classify_def g_variant_lookup_s_def)
  have h2: "None = None \<or> None = Some ([] :: string list)" by simp
  have c: "notify_event ?c = Some 7" "loop_context ?c = Some 1"
    and d: "notify_event ?d = None"
    by (simp_all add: rauc_install_context g_main_context_new_0)
  from record_pushed_only_with_callback
    [OF cl h2, where c = ?c and th = "\<lparr>owned = Some 1, on_event = drain\<rparr>"]
    record_pushed_only_with_callback
    [OF cl h2, where c = ?d and th = "\<lparr>owned = Some 1, on_event = drain\<rparr>"]
  show ?thesis
    using cl by (simp add: c d record_text_def)
qed

text \<open>
  C3 as stated fails: with \<^verbatim>\<open>notify_event\<close> \<^verbatim>\<open>NULL\<close>, a progress notification that
  classifies into a record is not appended to the queue.
\<close>

theorem record_without_callback_counterexample:
  "spec_classify [(''Progress'', GV_isi 50 ''writing'' 1)] =
     Some (ProgressChanged 50 ''writing'' 1)
   \<and> notify_event (fst (rauc_install [0] (Some ''update.raucb'') None (Some 8))) = None
   \<and> status_messages (fst (on_installer_status \<lparr>owned = Some 1, on_event = keep\<rparr>
        [(''Progress'', GV_isi 50 ''writing'' 1)] None
        (fst (rauc_install [0] (Some ''update.raucb'') None (Some 8))))) = []
   \<and> snd (on_installer_status \<lparr>owned = Some 1, on_event = keep\<rparr>
        [(''Progress'', GV_isi 50 ''writing'' 1)] None
        (fst (rauc_install [0] (Some ''update.raucb'') None (Some 8)))) = []"
  by (simp add: rauc_install_context spec_classify_def g_variant_lookup_s_def
      g_variant_lookup_isi_def on_installer_status_def)

subsection \<open>What a progress message carries\<close>

text \<open>
  C9, as amended. The message queued for a progress triple is the text
  \<^verbatim>\<open>"%3d%% %s"\<close> of the percentage and the message: it determines both of them, and it is
  the same for every depth, which the handler reads and does not queue.
\<close>

theorem progress_record_carries_percent_and_message:
  assumes "notify_event c = Some f" and "invalidated = None \<or> invalidated = Some []"
    and "spec_classify changed = Some (ProgressChanged percent message depth)"
  shows "pushed (snd (on_installer_status th changed invalidated c)) =
           [printf_progress percent message]
    \<and> (printf_progress percent message = printf_progress percent' message') =
        (percent = percent' \<and> message = message')
    \<and> record_text (ProgressChanged percent message depth') =
        record_text (ProgressChanged percent message depth)"
proof -
  from assms(2) have inv: "\<not> has_invalidated invalidated" by (rule not_invalidated)
  from assms(3) have "status_message changed = Some (printf_progress percent message)"
    by (simp add: status_message_classify record_text_def)
  with assms(1) inv
  have "pushed (snd (on_installer_status th changed invalidated c)) =
      [printf_progress percent message]"
    by (simp add: pushed_status)
  moreover have "(printf_progress percent message = printf_progress percent' message') =
      (percent = percent' \<and> message = message')"
    using printf_progress_inj [of percent message percent' message'] by blast
  ultimately show ?thesis by (simp add: record_text_def)
qed

theorem progress_record_carries_percent_and_message_witness:
  "spec_classify [(''Progress'', GV_isi 100 ''done'' 3)] = Some (ProgressChanged 100 ''done'' 3)
   \<and> pushed (snd (on_installer_status \<lparr>owned = Some 1, on_event = keep\<rparr>
      [(''Progress'', GV_isi 100 ''done'' 3)] None
      (fst (rauc_install [0] (Some ''update.raucb'') (Some 7) (Some 8))))) =
     [printf_progress 100 ''done'']
   \<and> printf_progress 100 ''done'' \<noteq> printf_progress 10 ''done''
   \<and> printf_progress 100 ''done'' = ''100% done''"
proof -
  let ?c = "fst (rauc_install [0] (Some ''update.raucb'') (Some 7) (Some 8))"
  have h1: "notify_event ?c = Some 7" by (simp add: rauc_install_context)
  have h2: "None = None \<or> None = Some ([] :: string list)" by simp
  have cl: "spec_classify [(''Progress'', GV_isi 100 ''done'' 3)] =
      Some (ProgressChanged 100 ''done'' 3)"
    by (simp add: spec_classify_def g_variant_lookup_s_def g_variant_lookup_isi_def)
  have tx: "printf_progress 100 ''done'' = ''100% done''"
    by (simp add: printf_progress_def pad_left_def int_decimal_def nat_digits.simps
        digit_char_def)
  from progress_record_carries_percent_and_message
    [OF h1 h2 cl, where th = "\<lparr>owned = Some 1, on_event = keep\<rparr>"
       and percent' = 10 and message' = "''done''"]
  show ?thesis using cl tx by simp
qed

text \<open>
  C9 as stated fails: two progress notifications that differ in their depth only leave the
  same message in the queue.
\<close>

theorem progress_depth_counterexample:
  "on_installer_status \<lparr>owned = Some 1, on_event = keep\<rparr>
      [(''Progress'', GV_isi 50 ''writing'' 1)] None
      (fst (rauc_install [0] (Some ''update.raucb'') (Some 7) (Some 8))) =
   on_installer_status \<lparr>owned = Some 1, on_event = keep\<rparr>
      [(''Progress'', GV_isi 50 ''writing'' 2)] None
      (fst (rauc_install [0] (Some ''update.raucb'') (Some 7) (Some 8)))
   \<and> status_messages (fst (on_installer_status \<lparr>owned = Some 1, on_event = keep\<rparr>
      [(''Progress'', GV_isi 50 ''writing'' 2)] None
      (fst (rauc_install [0] (Some ''update.raucb'') (Some 7) (Some 8))))) = ['' 50% writing'']"
  by (simp add: rauc_install_context g_main_context_new_0 g_variant_lookup_s_def
      g_variant_lookup_isi_def status_message_def on_installer_status_def
      g_main_context_invoke_def context_or_default_def printf_progress_def pad_left_def
      int_decimal_def nat_digits.simps digit_char_def keep_def)

subsection \<open>The completion callback\<close>

text \<open>
  C1. In a run started by \<^verbatim>\<open>rauc_install\<close> with a completion callback, that ends (the
  thread leaves before the main loop because the proxy, a signal connection or the call of
  \<^verbatim>\<open>Install\<close> failed, or a signal ends the wait: \<open>completed\<close> with a code that is not
  negative, or an invalidated property), the completion callback is called exactly once;
  nothing of the session is released before the call, and the releases follow it.
\<close>

theorem complete_called_exactly_once:
  assumes "on_install_complete = Some f"
    and "early_exit env \<or> list_ex (list_ex ends_wait) (signals env)"
  shows "completions
           (run_effects (rauc_install_run env live bundle_file on_install_notify
              on_install_complete)) = [f]
    \<and> list_all (\<lambda>e. \<not> is_release e)
        (takeWhile (\<lambda>e. e \<noteq> Call_notify_complete f)
           (run_effects (rauc_install_run env live bundle_file on_install_notify
              on_install_complete)))
    \<and> list_ex is_release
        (dropWhile (\<lambda>e. e \<noteq> Call_notify_complete f)
           (run_effects (rauc_install_run env live bundle_file on_install_notify
              on_install_complete)))
    \<and> run_outcome (rauc_install_run env live bundle_file on_install_notify
          on_install_complete) \<noteq> Blocked"
proof -
  let ?c = "fst (rauc_install live bundle_file on_install_notify on_install_complete)"
  let ?init = "[Store_result (- 2), Store_result 2, Thread_new]"
  have ml: "mainloop ?c = Some (GMainLoop (g_main_context_new live))"
    by (simp add: rauc_install_context)
  from thread_ends [OF assms(2) ml] obtain pre c' where pre: "completions pre = []"
    and rel: "list_all (\<lambda>e. \<not> is_release e) pre"
    and nc: "notify_complete c' = notify_complete ?c"
    and t: "install_loop_thread env ?c = out_loop c' pre"
    by blast
  from nc assms(1) have nc': "notify_complete c' = Some f"
    by (simp add: rauc_install_context)
  let ?post = "Pop_thread_default (loop_context c') # fst (install_context_free (Some c'))"
  have eff: "run_effects (rauc_install_run env live bundle_file on_install_notify
      on_install_complete) =
      (?init @ pre @ [Handlers_disconnect]) @ Call_notify_complete f # ?post"
    by (simp add: rauc_install_run_parts t out_loop_effects nc')
  have p: "completions (?init @ pre @ [Handlers_disconnect]) = []"
    using pre by simp
  have r: "list_all (\<lambda>e. \<not> is_release e) (?init @ pre @ [Handlers_disconnect])"
    using rel by simp
  have out: "run_outcome (rauc_install_run env live bundle_file on_install_notify
      on_install_complete) \<noteq> Blocked"
    by (simp add: rauc_install_run_parts t out_loop_outcome)
  have c: "completions (run_effects (rauc_install_run env live bundle_file on_install_notify
      on_install_complete)) = [f]"
    unfolding eff using pre by simp
  show ?thesis
    unfolding eff takeWhile_complete [OF p] dropWhile_complete [OF p]
    using r out c unfolding eff by simp
qed

theorem complete_called_exactly_once_witness:
  "list_ex (list_ex ends_wait) (signals scenario_C)
   \<and> completions (run_effects
      (rauc_install_run scenario_C [0] (Some ''update.raucb'') (Some 7) (Some 8))) = [8]
   \<and> takeWhile (\<lambda>e. e \<noteq> Call_notify_complete 8) (run_effects
      (rauc_install_run scenario_C [0] (Some ''update.raucb'') (Some 7) (Some 8))) =
     [Store_result (- 2), Store_result 2, Thread_new, Push_thread_default (Some 1),
      Proxy_new_for_bus_sync G_BUS_TYPE_SYSTEM, Signal_connect ''g-properties-changed'',
      Signal_connect ''completed'', Call_install_sync (Some ''update.raucb''),
      Main_loop_run (Some (GMainLoop 1)),
      Mutex_lock, Queue_push_tail '' 10% checking'', Mutex_unlock,
      Context_invoke (Some 1) 7, Call_direct 7,
      Mutex_lock, Store_result 2, Mutex_unlock, Main_loop_quit (Some (GMainLoop 1)),
      Handlers_disconnect]
   \<and> run_outcome (rauc_install_run scenario_C [0] (Some ''update.raucb'') (Some 7) (Some 8))
       = Returned"
proof -
  have e: "list_ex (list_ex ends_wait) (signals scenario_C)"
    by (simp add: scenario_C_def remote_def progress_def ends_wait_def)
  then have h: "early_exit scenario_C \<or> list_ex (list_ex ends_wait) (signals scenario_C)" by simp
  from complete_called_exactly_once
    [OF refl h, where f = 8 and live = "[0]" and bundle_file = "Some ''update.raucb''"
       and on_install_notify = "Some 7"]
  have "completions (run_effects
      (rauc_install_run scenario_C [0] (Some ''update.raucb'') (Some 7) (Some 8))) = [8]"
    by blast
  with e show ?thesis
    by (simp add: run_scenario_C run_effects_def run_outcome_def)
qed

subsection \<open>Leaving before the main loop\<close>

text \<open>
  C7. When the proxy is not created, one of the two signals is not connected, or the call
  of \<^verbatim>\<open>Install\<close> fails, the main loop is never entered, the thread returns with
  \<^verbatim>\<open>status_result\<close> equal to 2 (the value that \<^verbatim>\<open>rauc_install\<close> stored), nothing is
  pushed to the queue, no delivery is requested and no event callback is called; the
  completion callback, if there is one, is called once.
\<close>

theorem early_exit_never_enters_loop:
  assumes "early_exit env"
  shows "entered (run_effects (rauc_install_run env live bundle_file on_install_notify
            on_install_complete)) = []
    \<and> run_outcome (rauc_install_run env live bundle_file on_install_notify
          on_install_complete) = Returned
    \<and> status_result (run_context (rauc_install_run env live bundle_file on_install_notify
          on_install_complete)) = 2
    \<and> stored (run_effects (rauc_install_run env live bundle_file on_install_notify
          on_install_complete)) = [- 2, 2]
    \<and> completions (run_effects (rauc_install_run env live bundle_file on_install_notify
          on_install_complete)) =
        (case on_install_complete of None \<Rightarrow> [] | Some f \<Rightarrow> [f])
    \<and> pushed (run_effects (rauc_install_run env live bundle_file on_install_notify
          on_install_complete)) = []
    \<and> invoked (run_effects (rauc_install_run env live bundle_file on_install_notify
          on_install_complete)) = []
    \<and> called (run_effects (rauc_install_run env live bundle_file on_install_notify
          on_install_complete)) = []
    \<and> attached (run_effects (rauc_install_run env live bundle_file on_install_notify
          on_install_complete)) = []
    \<and> status_messages (run_context (rauc_install_run env live bundle_file
          on_install_notify on_install_complete)) = []"
proof -
  let ?c = "fst (rauc_install live bundle_file on_install_notify on_install_complete)"
  from thread_early [OF assms] obtain es0 where s: "silent es0"
    and t: "install_loop_thread env ?c = out_loop ?c es0"
    by blast
  have r: "status_result ?c = 2" "status_messages ?c = []"
    "notify_complete ?c = on_install_complete"
    by (simp_all add: rauc_install_context)
  from s have q: "entered es0 = []" "stored es0 = []" "completions es0 = []"
    "pushed es0 = []" "invoked es0 = []" "called es0 = []" "attached es0 = []"
    by (simp_all add: silent_def)
  show ?thesis
    by (simp add: rauc_install_run_parts t out_loop_effects out_loop_outcome free_effects
        r q split: option.splits)
qed

theorem early_exit_never_enters_loop_witness:
  "early_exit scenario_D
   \<and> entered (run_effects
       (rauc_install_run scenario_D [0] (Some ''update.raucb'') (Some 7) (Some 8))) = []
   \<and> status_result (run_context
       (rauc_install_run scenario_D [0] (Some ''update.raucb'') (Some 7) (Some 8))) = 2
   \<and> completions (run_effects
       (rauc_install_run scenario_D [0] (Some ''update.raucb'') (Some 7) (Some 8))) = [8]
   \<and> called (run_effects
       (rauc_install_run scenario_D [0] (Some ''update.raucb'') (Some 7) (Some 8))) = []"
proof -
  have h: "early_exit scenario_D"
    by (simp add: early_exit_def scenario_D_def remote_def)
  from early_exit_never_enters_loop
    [OF h, where live = "[0]" and bundle_file = "Some ''update.raucb''"
       and on_install_notify = "Some 7" and on_install_complete = "Some 8"] h
  show ?thesis by simp
qed


subsection \<open>The assertions of the destructor\<close>

lemma dispatch_stored_nonneg:
  "\<forall>r. n = Completed r \<longrightarrow> 0 \<le> sint r \<Longrightarrow>
   \<forall>v\<in>set (stored (snd (dispatch th n c))). 0 \<le> sint v"
  by (cases n) (simp_all add: dispatch_stored)

lemma iter_stored_nonneg:
  "\<forall>r. Completed r \<in> set ns \<longrightarrow> 0 \<le> sint r \<Longrightarrow>
   \<forall>v\<in>set (stored (snd (g_main_dispatch th ns c))). 0 \<le> sint v"
proof (induction ns arbitrary: c)
  case Nil
  show ?case by simp
next
  case (Cons n ns)
  from Cons.prems have n: "\<forall>r. n = Completed r \<longrightarrow> 0 \<le> sint r"
    and ns: "\<forall>r. Completed r \<in> set ns \<longrightarrow> 0 \<le> sint r"
    by auto
  from Cons.IH [OF ns, of "fst (dispatch th n c)"] dispatch_stored_nonneg [OF n, of th c]
  show ?case
    by (auto simp: iter_Cons simp del: g_main_dispatch.simps(2))
qed

lemma run_stored_nonneg:
  "\<forall>b\<in>set bs. \<forall>r. Completed r \<in> set b \<longrightarrow> 0 \<le> sint r \<Longrightarrow>
   \<forall>v\<in>set (stored (fst (snd (g_main_loop_run cbs l bs c)))). 0 \<le> sint v"
proof (induction bs arbitrary: c)
  case Nil
  show ?case by simp
next
  case (Cons b bs)
  let ?d = "g_main_dispatch \<lparr>owned = Some (loop_on l), on_event = cbs\<rparr> b c"
  from Cons.prems have b: "\<forall>r. Completed r \<in> set b \<longrightarrow> 0 \<le> sint r"
    and bs: "\<forall>b\<in>set bs. \<forall>r. Completed r \<in> set b \<longrightarrow> 0 \<le> sint r"
    by simp_all
  from Cons.IH [OF bs, of "fst ?d"] iter_stored_nonneg [OF b]
  show ?case
    by (auto simp: run_Cons simp del: g_main_loop_run.simps(2))
qed

text \<open>
  When the event callback, if one is registered, empties the queue whenever it is called,
  the queue is empty when the thread frees the context: the second assertion of
  \<^verbatim>\<open>install_context_free\<close> never fails.
\<close>

lemma queue_empty_at_free:
  assumes "\<forall>f q. on_install_notify = Some f \<longrightarrow> callbacks env f q = []"
  shows "status_messages (run_context (rauc_install_run env live bundle_file
            on_install_notify on_install_complete)) = []
    \<and> run_outcome (rauc_install_run env live bundle_file on_install_notify
          on_install_complete) \<noteq> Aborted Assert_queue_empty"
proof (cases "early_exit env")
  case True
  let ?c = "fst (rauc_install live bundle_file on_install_notify on_install_complete)"
  from thread_early [OF True] obtain es0 where
    t: "install_loop_thread env ?c = out_loop ?c es0"
    by blast
  have r: "status_result ?c = 2" "status_messages ?c = []"
    by (simp_all add: rauc_install_context)
  show ?thesis
    by (simp add: rauc_install_run_parts t out_loop_outcome r)
next
  case False
  let ?c = "fst (rauc_install live bundle_file on_install_notify on_install_complete)"
  let ?l = "GMainLoop (g_main_context_new live)"
  let ?R = "g_main_loop_run (callbacks env) ?l (signals env) ?c"
  have ml: "mainloop ?c = Some ?l" by (simp add: rauc_install_context)
  from thread_loop [OF False ml] obtain es0 where
    t: "install_loop_thread env ?c =
        (if list_ex (list_ex ends_wait) (signals env)
         then out_loop (fst ?R) (es0 @ Main_loop_run (Some ?l) # fst (snd ?R))
         else (fst ?R, es0 @ Main_loop_run (Some ?l) # fst (snd ?R), Blocked))"
    by blast
  have "status_messages (fst ?R) = []"
    using assms by (intro run_queue_empty) (simp_all add: rauc_install_context)
  then show ?thesis
    by (simp add: rauc_install_run_parts t out_loop_outcome)
qed

text \<open>
  When, moreover, no \<open>completed\<close> signal carries a negative code, \<^verbatim>\<open>status_result\<close> is
  not negative when the thread frees the context, and no assertion fails.
\<close>

lemma assertions_hold_without_negative_codes:
  assumes "\<forall>f q. on_install_notify = Some f \<longrightarrow> callbacks env f q = []"
    and "\<forall>b\<in>set (signals env). \<forall>r. Completed r \<in> set b \<longrightarrow> 0 \<le> sint r"
  shows "0 \<le> sint (status_result (run_context (rauc_install_run env live bundle_file
            on_install_notify on_install_complete)))
    \<and> run_outcome (rauc_install_run env live bundle_file on_install_notify
          on_install_complete) \<noteq> Aborted a
    \<and> (run_outcome (rauc_install_run env live bundle_file on_install_notify
            on_install_complete) = Returned) =
        (early_exit env \<or> list_ex (list_ex ends_wait) (signals env))"
proof -
  let ?c = "fst (rauc_install live bundle_file on_install_notify on_install_complete)"
  let ?l = "GMainLoop (g_main_context_new live)"
  let ?R = "g_main_loop_run (callbacks env) ?l (signals env) ?c"
  have ml: "mainloop ?c = Some ?l" and r2: "status_result ?c = 2"
    by (simp_all add: rauc_install_context)
  have nn: "\<forall>v\<in>set (stored (fst (snd ?R))). 0 \<le> sint v"
    by (rule run_stored_nonneg [OF assms(2)])
  have "0 \<le> sint (last (2 # stored (fst (snd ?R))))"
  proof (cases "stored (fst (snd ?R)) = []")
    case True
    then show ?thesis by simp
  next
    case False
    then have "last (stored (fst (snd ?R))) \<in> set (stored (fst (snd ?R)))" by simp
    with nn False show ?thesis by simp
  qed
  then have res: "0 \<le> sint (status_result (fst ?R))"
    by (simp add: run_result r2)
  show ?thesis
  proof (cases "early_exit env")
    case True
    from thread_early [OF True] obtain es0 where
      t: "install_loop_thread env ?c = out_loop ?c es0"
      by blast
    have "status_messages ?c = []" by (simp add: rauc_install_context)
    with True show ?thesis
      by (simp add: rauc_install_run_parts t out_loop_outcome r2)
  next
    case False
    from thread_loop [OF False ml] obtain es0 where
      t: "install_loop_thread env ?c =
          (if list_ex (list_ex ends_wait) (signals env)
           then out_loop (fst ?R) (es0 @ Main_loop_run (Some ?l) # fst (snd ?R))
           else (fst ?R, es0 @ Main_loop_run (Some ?l) # fst (snd ?R), Blocked))"
      by blast
    have "status_messages (fst ?R) = []"
      using assms(1) by (intro run_queue_empty) (simp_all add: rauc_install_context)
    with False res show ?thesis
      by (simp add: rauc_install_run_parts t out_loop_outcome)
  qed
qed

text \<open>
  C4. The claim fails on the code. The remote side emits \<open>completed\<close> with 0 and then
  \<open>completed\<close> with -1, and both signals are ready in the same iteration of the main
  loop. The first handler stores 0 and quits the loop; the iteration still dispatches the
  second handler, which stores -1 and does not quit; \<^verbatim>\<open>g_main_loop_run\<close> returns, the
  completion callback is called with \<^verbatim>\<open>status_result\<close> at -1, and
  \<^verbatim>\<open>install_context_free\<close> aborts at its first assertion, before the main loop and the
  context are freed. The queue is empty, as the event callback drains it.
\<close>

theorem negative_code_after_quit_fails_assertion:
  "rauc_install_run (remote [[Completed 0, Completed (- 1)]])
      [0] (Some ''update.raucb'') (Some 7) (Some 8) =
   (\<lparr>bundle_path = Some ''update.raucb'', notify_event = Some 7, notify_complete = Some 8,
     status_messages = [], status_result = - 1, mainloop = Some (GMainLoop 1),
     loop_context = Some 1\<rparr>,
    [Store_result (- 2), Store_result 2, Thread_new, Push_thread_default (Some 1),
     Proxy_new_for_bus_sync G_BUS_TYPE_SYSTEM, Signal_connect ''g-properties-changed'',
     Signal_connect ''completed'', Call_install_sync (Some ''update.raucb''),
     Main_loop_run (Some (GMainLoop 1)),
     Mutex_lock, Store_result 0, Mutex_unlock, Main_loop_quit (Some (GMainLoop 1)),
     Mutex_lock, Store_result (- 1), Mutex_unlock,
     Handlers_disconnect, Call_notify_complete 8, Pop_thread_default (Some 1),
     Free_bundle, Mutex_clear, Context_unref (Some 1)],
    Aborted Assert_status_result)"
  by (simp add: run_defs)


subsection \<open>The stores into the result\<close>





subsection \<open>Where the event callback is delivered\<close>




end
